theory Spec2Isabelle
  imports Main
begin

section \<open>The draft server: data model\<close>

text \<open>
  The model follows \<^verbatim>\<open>src/server.js\<close>. JavaScript numbers that the draft logic reads
  (player numbers, counters, quotas) are integers here. The phase is a string in the
  source that only ever holds one of five literals; it is an enumeration here.
\<close>

datatype phase = Ban1 | Pick1 | Ban2 | Pick2 | Complete

text \<open>\<^verbatim>\<open>phase.startsWith("ban")\<close> and \<^verbatim>\<open>phase.startsWith("pick")\<close> on the five literals.\<close>

fun startsWith_ban :: "phase \<Rightarrow> bool" where
  "startsWith_ban Ban1 = True"
| "startsWith_ban Ban2 = True"
| "startsWith_ban _ = False"

fun startsWith_pick :: "phase \<Rightarrow> bool" where
  "startsWith_pick Pick1 = True"
| "startsWith_pick Pick2 = True"
| "startsWith_pick _ = False"

text \<open>A counter object \<^verbatim>\<open>{ player1: 0, player2: 0 }\<close>.\<close>

record counts =
  player1 :: int
  player2 :: int

text \<open>An element of \<^verbatim>\<open>bans\<close>: \<^verbatim>\<open>{ characterId, phase, bannedBy }\<close>.\<close>

record ban_entry =
  ban_characterId :: string
  ban_phase :: string
  bannedBy :: int

text \<open>An element of \<^verbatim>\<open>picks\<close>: \<^verbatim>\<open>{ characterId, pickedBy, order }\<close>.\<close>

record pick_entry =
  pick_characterId :: string
  pickedBy :: int
  pick_order :: int

text \<open>\<^verbatim>\<open>currentDraftState\<close>, when it is not \<^verbatim>\<open>null\<close>.\<close>

record draft_state =
  phase :: phase
  currentPlayer :: int
  bans :: "ban_entry list"
  picks :: "pick_entry list"
  player1Picks :: "string list"
  player2Picks :: "string list"
  currentPhase1BanCount :: counts
  currentPhase2BanCount :: counts
  currentPick1Count :: counts
  currentPick2Count :: counts
  balanceBansUsed :: int
  timerStartedAt :: int

text \<open>
  \<^verbatim>\<open>draftConfig\<close>: the four fields that \<^verbatim>\<open>advanceDraftState\<close> reads. The game mode and the
  timer fields are read by no handler of the draft.
\<close>

record draft_config =
  bansPhase1 :: int
  bansPhase2 :: int
  balanceBans :: int
  balanceBansPlayer :: int

text \<open>
  A \<^verbatim>\<open>discordId\<close> as \<^verbatim>\<open>auth:login\<close> stores it, unchecked, from the payload of the
  client: \<^verbatim>\<open>undefined\<close> when the payload has no such field, a value otherwise. \<open>Id\<close>
  carries what identifies the value under \<^verbatim>\<open>===\<close>; for a Discord user this is the
  string of the identifier.
\<close>

datatype js_id = Undefined | Id string

text \<open>
  An entry of \<^verbatim>\<open>connectedUsers\<close>. The draft handlers read only its \<^verbatim>\<open>discordId\<close>.
\<close>

record user =
  discordId :: js_id

text \<open>
  \<^verbatim>\<open>draftRoom\<close>: each seat is \<^verbatim>\<open>null\<close> or a copy of the user who took it (with the
  socket id, which the draft handlers do not read).
\<close>

record draft_room =
  room_player1 :: "user option"
  room_player2 :: "user option"

text \<open>The module-level variables that the draft handlers read and write.\<close>

record server =
  currentDraftState :: "draft_state option"
  draftRoom :: draft_room
  draftConfig :: draft_config

text \<open>
  The messages of \<^verbatim>\<open>socket.emit("error", ...)\<close>, under the names of the specification:
  "Vous n'etes pas un joueur" is \<open>NotAPlayer\<close>, "La draft n'a pas commence" is
  \<open>NoActiveSession\<close>, "Ce n'est pas votre tour" is \<open>NotYourTurn\<close>, "Ce n'est pas une phase
  de ban" and "Ce n'est pas une phase de pick" are \<open>WrongPhaseKind\<close>, "Ce personnage est
  deja banni" and "Ce personnage est banni" are \<open>ItemAlreadyBanned\<close>, "Ce personnage est
  deja selectionne" is \<open>ItemAlreadyPicked\<close>, and "Les deux joueurs doivent etre presents"
  is \<open>PreconditionError\<close>.
\<close>

datatype error =
    PreconditionError
  | NotAPlayer
  | NoActiveSession
  | NotYourTurn
  | WrongPhaseKind
  | ItemAlreadyBanned
  | ItemAlreadyPicked

text \<open>
  What a handler emits: nothing (the socket has no entry in \<^verbatim>\<open>connectedUsers\<close> and the
  handler returns at once), an error to the sender, or a broadcast.
\<close>

datatype reply =
    NoReply
  | EmitError error
  | DraftStarted
  | DraftUpdated
  | DraftReset

section \<open>The operations\<close>

text \<open>
  \<^verbatim>\<open>seat?.discordId\<close>: \<^verbatim>\<open>undefined\<close> on an empty seat, the \<^verbatim>\<open>discordId\<close> of the
  seated user otherwise.
\<close>

definition seat_discordId :: "user option \<Rightarrow> js_id" where
  "seat_discordId seat = (case seat of None \<Rightarrow> Undefined | Some p \<Rightarrow> discordId p)"

text \<open>
  \<^verbatim>\<open>getPlayerNumber\<close> compares with \<^verbatim>\<open>===\<close>, so an \<^verbatim>\<open>undefined\<close> identifier equals
  that of an empty seat.
\<close>

definition getPlayerNumber :: "draft_room \<Rightarrow> js_id \<Rightarrow> int option" where
  "getPlayerNumber room did =
     (if seat_discordId (room_player1 room) = did then Some 1
      else if seat_discordId (room_player2 room) = did then Some 2
      else None)"

text \<open>
  \<^verbatim>\<open>advanceDraftState\<close> on a session that exists, reading the configuration. Each
  branch of the \<^verbatim>\<open>switch\<close> is a function of its own.
\<close>

definition advance_ban1 :: "draft_config \<Rightarrow> draft_state \<Rightarrow> draft_state" where
  "advance_ban1 cfg d =
     (let p1Bans = player1 (currentPhase1BanCount d);
          p2Bans = player2 (currentPhase1BanCount d);
          totalBansNeeded =
            bansPhase1 cfg + (if balanceBansPlayer cfg = 1 then balanceBans cfg else 0);
          p1Done = (p1Bans \<ge> (if balanceBansPlayer cfg = 1 then totalBansNeeded
                                else bansPhase1 cfg));
          p2Done = (p2Bans \<ge> (if balanceBansPlayer cfg = 2
                                then bansPhase1 cfg + balanceBans cfg
                                else bansPhase1 cfg))
      in if p1Done \<and> p2Done then d\<lparr>phase := Pick1, currentPlayer := 1\<rparr>
         else
           (let d1 = d\<lparr>currentPlayer := (if currentPlayer d = 1 then 2 else 1)\<rparr>;
                nextP1Bans = player1 (currentPhase1BanCount d1);
                nextP2Bans = player2 (currentPhase1BanCount d1)
            in if currentPlayer d1 = 1
                  \<and> nextP1Bans \<ge> (if balanceBansPlayer cfg = 1 then totalBansNeeded
                                    else bansPhase1 cfg)
               then d1\<lparr>currentPlayer := 2\<rparr>
               else if currentPlayer d1 = 2
                  \<and> nextP2Bans \<ge> (if balanceBansPlayer cfg = 2
                                    then bansPhase1 cfg + balanceBans cfg
                                    else bansPhase1 cfg)
               then d1\<lparr>currentPlayer := 1\<rparr>
               else d1))"

definition advance_pick1 :: "draft_state \<Rightarrow> draft_state" where
  "advance_pick1 d =
     (let p1Picks = player1 (currentPick1Count d);
          p2Picks = player2 (currentPick1Count d)
      in if p1Picks \<ge> 3 \<and> p2Picks \<ge> 3 then d\<lparr>phase := Ban2, currentPlayer := 1\<rparr>
         else
           (let totalPicks = p1Picks + p2Picks
            in if totalPicks = 0 then d\<lparr>currentPlayer := 1\<rparr>
               else if totalPicks = 1 then d\<lparr>currentPlayer := 2\<rparr>
               else if totalPicks = 2 then d\<lparr>currentPlayer := 2\<rparr>
               else if totalPicks = 3 then d\<lparr>currentPlayer := 1\<rparr>
               else if totalPicks = 4 then d\<lparr>currentPlayer := 1\<rparr>
               else if totalPicks = 5 then d\<lparr>currentPlayer := 2\<rparr>
               else d))"

definition advance_ban2 :: "draft_config \<Rightarrow> draft_state \<Rightarrow> draft_state" where
  "advance_ban2 cfg d =
     (let p1Bans = player1 (currentPhase2BanCount d);
          p2Bans = player2 (currentPhase2BanCount d)
      in if p1Bans \<ge> bansPhase2 cfg \<and> p2Bans \<ge> bansPhase2 cfg
         then d\<lparr>phase := Pick2, currentPlayer := 2\<rparr>
         else
           (let d1 = d\<lparr>currentPlayer := (if currentPlayer d = 1 then 2 else 1)\<rparr>
            in if currentPlayer d1 = 1
                  \<and> player1 (currentPhase2BanCount d1) \<ge> bansPhase2 cfg
               then d1\<lparr>currentPlayer := 2\<rparr>
               else if currentPlayer d1 = 2
                  \<and> player2 (currentPhase2BanCount d1) \<ge> bansPhase2 cfg
               then d1\<lparr>currentPlayer := 1\<rparr>
               else d1))"

definition advance_pick2 :: "draft_state \<Rightarrow> draft_state" where
  "advance_pick2 d =
     (let p1Picks = player1 (currentPick2Count d);
          p2Picks = player2 (currentPick2Count d)
      in if p1Picks \<ge> 3 \<and> p2Picks \<ge> 3 then d\<lparr>phase := Complete\<rparr>
         else
           (let totalPicks = p1Picks + p2Picks
            in if totalPicks = 0 then d\<lparr>currentPlayer := 2\<rparr>
               else if totalPicks = 1 then d\<lparr>currentPlayer := 1\<rparr>
               else if totalPicks = 2 then d\<lparr>currentPlayer := 1\<rparr>
               else if totalPicks = 3 then d\<lparr>currentPlayer := 2\<rparr>
               else if totalPicks = 4 then d\<lparr>currentPlayer := 2\<rparr>
               else if totalPicks = 5 then d\<lparr>currentPlayer := 1\<rparr>
               else d))"

definition advance :: "draft_config \<Rightarrow> draft_state \<Rightarrow> draft_state" where
  "advance cfg d =
     (case phase d of
        Ban1 \<Rightarrow> advance_ban1 cfg d
      | Pick1 \<Rightarrow> advance_pick1 d
      | Ban2 \<Rightarrow> advance_ban2 cfg d
      | Pick2 \<Rightarrow> advance_pick2 d
      | Complete \<Rightarrow> d)"

definition advanceDraftState :: "server \<Rightarrow> server" where
  "advanceDraftState s =
     (case currentDraftState s of
        None \<Rightarrow> s
      | Some d \<Rightarrow> s\<lparr>currentDraftState := Some (advance (draftConfig s) d)\<rparr>)"

text \<open>
  \<^verbatim>\<open>counter[`player${playerNumber}`]++\<close>, where \<^verbatim>\<open>playerNumber\<close> is a result of
  \<^verbatim>\<open>getPlayerNumber\<close>, so 1 or 2.
\<close>

definition increment :: "int \<Rightarrow> counts \<Rightarrow> counts" where
  "increment playerNumber c =
     (if playerNumber = 1 then c\<lparr>player1 := player1 c + 1\<rparr>
      else c\<lparr>player2 := player2 c + 1\<rparr>)"

text \<open>
  The handlers. Each takes the server state, the entry of the socket in
  \<^verbatim>\<open>connectedUsers\<close> (the user, or \<open>None\<close> when there is none) and the payload,
  and returns what it emits with the server state it leaves.
\<close>

definition draft_start :: "server \<Rightarrow> user option \<Rightarrow> int \<Rightarrow> reply \<times> server" where
  "draft_start s user now =
     (case user of
        None \<Rightarrow> (NoReply, s)
      | Some u \<Rightarrow>
          if room_player1 (draftRoom s) = None \<or> room_player2 (draftRoom s) = None
          then (EmitError PreconditionError, s)
          else (DraftStarted,
                s\<lparr>currentDraftState := Some
                    \<lparr>phase = Ban1, currentPlayer = 1, bans = [], picks = [],
                     player1Picks = [], player2Picks = [],
                     currentPhase1BanCount = \<lparr>player1 = 0, player2 = 0\<rparr>,
                     currentPhase2BanCount = \<lparr>player1 = 0, player2 = 0\<rparr>,
                     currentPick1Count = \<lparr>player1 = 0, player2 = 0\<rparr>,
                     currentPick2Count = \<lparr>player1 = 0, player2 = 0\<rparr>,
                     balanceBansUsed = 0, timerStartedAt = now\<rparr>\<rparr>))"

text \<open>
  The mutation of \<^verbatim>\<open>draft:ban\<close> once the checks have passed: the new element of
  \<^verbatim>\<open>bans\<close>, then the counter of the phase.
\<close>

definition ban_mutation :: "draft_state \<Rightarrow> int \<Rightarrow> string \<Rightarrow> draft_state" where
  "ban_mutation d playerNumber characterId =
     (let ph = (if phase d = Ban1 then ''phase1'' else ''phase2'');
          d1 = d\<lparr>bans := bans d @
                 [\<lparr>ban_characterId = characterId, ban_phase = ph,
                   bannedBy = playerNumber\<rparr>]\<rparr>
      in if phase d1 = Ban1
         then d1\<lparr>currentPhase1BanCount :=
                   increment playerNumber (currentPhase1BanCount d1)\<rparr>
         else d1\<lparr>currentPhase2BanCount :=
                   increment playerNumber (currentPhase2BanCount d1)\<rparr>)"

definition draft_ban :: "server \<Rightarrow> user option \<Rightarrow> string \<Rightarrow> reply \<times> server" where
  "draft_ban s user characterId =
     (case user of
        None \<Rightarrow> (NoReply, s)
      | Some u \<Rightarrow>
     (case getPlayerNumber (draftRoom s) (discordId u) of
        None \<Rightarrow> (EmitError NotAPlayer, s)
      | Some playerNumber \<Rightarrow>
     (case currentDraftState s of
        None \<Rightarrow> (EmitError NoActiveSession, s)
      | Some d \<Rightarrow>
          if currentPlayer d \<noteq> playerNumber then (EmitError NotYourTurn, s)
          else if \<not> startsWith_ban (phase d) then (EmitError WrongPhaseKind, s)
          else if list_ex (\<lambda>b. ban_characterId b = characterId) (bans d)
          then (EmitError ItemAlreadyBanned, s)
          else (DraftUpdated,
                advanceDraftState
                  (s\<lparr>currentDraftState :=
                       Some (ban_mutation d playerNumber characterId)\<rparr>)))))"

text \<open>
  The mutation of \<^verbatim>\<open>draft:pick\<close> once the checks have passed: the new element of
  \<^verbatim>\<open>picks\<close>, the list of the acting player, then the counter of the phase.
\<close>

definition pick_mutation :: "draft_state \<Rightarrow> int \<Rightarrow> string \<Rightarrow> draft_state" where
  "pick_mutation d playerNumber characterId =
     (let d1 = d\<lparr>picks := picks d @
                 [\<lparr>pick_characterId = characterId, pickedBy = playerNumber,
                   pick_order = int (length (picks d)) + 1\<rparr>]\<rparr>;
          d2 = (if playerNumber = 1
                then d1\<lparr>player1Picks := player1Picks d1 @ [characterId]\<rparr>
                else d1\<lparr>player2Picks := player2Picks d1 @ [characterId]\<rparr>)
      in if phase d2 = Pick1
         then d2\<lparr>currentPick1Count := increment playerNumber (currentPick1Count d2)\<rparr>
         else d2\<lparr>currentPick2Count := increment playerNumber (currentPick2Count d2)\<rparr>)"

definition draft_pick :: "server \<Rightarrow> user option \<Rightarrow> string \<Rightarrow> reply \<times> server" where
  "draft_pick s user characterId =
     (case user of
        None \<Rightarrow> (NoReply, s)
      | Some u \<Rightarrow>
     (case getPlayerNumber (draftRoom s) (discordId u) of
        None \<Rightarrow> (EmitError NotAPlayer, s)
      | Some playerNumber \<Rightarrow>
     (case currentDraftState s of
        None \<Rightarrow> (EmitError NoActiveSession, s)
      | Some d \<Rightarrow>
          if currentPlayer d \<noteq> playerNumber then (EmitError NotYourTurn, s)
          else if \<not> startsWith_pick (phase d) then (EmitError WrongPhaseKind, s)
          else if list_ex (\<lambda>b. ban_characterId b = characterId) (bans d)
          then (EmitError ItemAlreadyBanned, s)
          else if list_ex (\<lambda>p. pick_characterId p = characterId) (picks d)
          then (EmitError ItemAlreadyPicked, s)
          else (DraftUpdated,
                advanceDraftState
                  (s\<lparr>currentDraftState :=
                       Some (pick_mutation d playerNumber characterId)\<rparr>)))))"

definition draft_reset :: "server \<Rightarrow> user option \<Rightarrow> reply \<times> server" where
  "draft_reset s user =
     (case user of
        None \<Rightarrow> (NoReply, s)
      | Some u \<Rightarrow> (DraftReset, s\<lparr>currentDraftState := None\<rparr>))"

section \<open>Runs of the server\<close>

text \<open>
  The four draft messages a socket can send, each with the entry of the socket in
  \<^verbatim>\<open>connectedUsers\<close> and the payload (for \<open>Start\<close>, the value of \<^verbatim>\<open>Date.now()\<close>).
  The handlers run one at a time, each to its end.
\<close>

datatype event =
    Start "user option" int
  | Ban "user option" string
  | Pick "user option" string
  | Reset "user option"

fun step :: "server \<Rightarrow> event \<Rightarrow> reply \<times> server" where
  "step s (Start user now) = draft_start s user now"
| "step s (Ban user characterId) = draft_ban s user characterId"
| "step s (Pick user characterId) = draft_pick s user characterId"
| "step s (Reset user) = draft_reset s user"

fun run :: "server \<Rightarrow> event list \<Rightarrow> server" where
  "run s [] = s"
| "run s (e # es) = run (snd (step s e)) es"

text \<open>The player number under which a socket acts, if any.\<close>

definition actor :: "server \<Rightarrow> user option \<Rightarrow> int option" where
  "actor s user =
     (case user of None \<Rightarrow> None | Some u \<Rightarrow> getPlayerNumber (draftRoom s) (discordId u))"

definition phase_of :: "server \<Rightarrow> phase option" where
  "phase_of s = (case currentDraftState s of None \<Rightarrow> None | Some d \<Rightarrow> Some (phase d))"

definition turn_of :: "server \<Rightarrow> int option" where
  "turn_of s =
     (case currentDraftState s of None \<Rightarrow> None | Some d \<Rightarrow> Some (currentPlayer d))"

text \<open>
  The configuration of the source, two users, and a server with no session where the
  two have taken the seats.
\<close>

definition initial_config :: draft_config where
  "initial_config =
     \<lparr>bansPhase1 = 1, bansPhase2 = 1, balanceBans = 0, balanceBansPlayer = 1\<rparr>"

definition alice :: user where
  "alice = \<lparr>discordId = Id ''alice''\<rparr>"

definition bob :: user where
  "bob = \<lparr>discordId = Id ''bob''\<rparr>"

definition seated :: "draft_config \<Rightarrow> server" where
  "seated cfg =
     \<lparr>currentDraftState = None,
      draftRoom = \<lparr>room_player1 = Some alice, room_player2 = Some bob\<rparr>,
      draftConfig = cfg\<rparr>"

text \<open>The seated server right after \<^verbatim>\<open>draft:start\<close>.\<close>

definition started :: "draft_config \<Rightarrow> server" where
  "started cfg = snd (draft_start (seated cfg) (Some alice) 0)"

section \<open>The turn rules in the words of the specification\<close>

text \<open>
  \<open>need cfg p\<close> is the number of phase-1 bans of player \<open>p\<close>: \<open>bansPhase1 + balanceBans\<close>
  for the balance-ban player, \<open>bansPhase1\<close> for the other.
\<close>

definition need :: "draft_config \<Rightarrow> int \<Rightarrow> int" where
  "need cfg p =
     (if p = balanceBansPlayer cfg then bansPhase1 cfg + balanceBans cfg
      else bansPhase1 cfg)"

definition count_of :: "counts \<Rightarrow> int \<Rightarrow> int" where
  "count_of c p = (if p = 1 then player1 c else player2 c)"

text \<open>The flip of the turn: 1 to 2, 2 to 1.\<close>

definition flip :: "int \<Rightarrow> int" where
  "flip p = (if p = 1 then 2 else 1)"

text \<open>A player is done with a ban phase when the count has reached the quota.\<close>

definition done1 :: "draft_config \<Rightarrow> draft_state \<Rightarrow> int \<Rightarrow> bool" where
  "done1 cfg d p = (count_of (currentPhase1BanCount d) p \<ge> need cfg p)"

definition done2 :: "draft_config \<Rightarrow> draft_state \<Rightarrow> int \<Rightarrow> bool" where
  "done2 cfg d p = (count_of (currentPhase2BanCount d) p \<ge> bansPhase2 cfg)"

text \<open>The turn after a ban that does not end the phase: flip, and skip once if done.\<close>

definition flip_skip :: "(int \<Rightarrow> bool) \<Rightarrow> int \<Rightarrow> int" where
  "flip_skip finished p = (if finished (flip p) then flip (flip p) else flip p)"

text \<open>The draft-order tables of the two pick phases, indexed from 0.\<close>

definition pick1_table :: "int list" where
  "pick1_table = [1, 2, 2, 1, 1, 2]"

definition pick2_table :: "int list" where
  "pick2_table = [2, 1, 1, 2, 2, 1]"

text \<open>The order of the phases.\<close>

fun phase_succ :: "phase \<Rightarrow> phase option" where
  "phase_succ Ban1 = Some Pick1"
| "phase_succ Pick1 = Some Ban2"
| "phase_succ Ban2 = Some Pick2"
| "phase_succ Pick2 = Some Complete"
| "phase_succ Complete = None"

section \<open>Predicates and sample runs used by the theorems\<close>

text \<open>\<^verbatim>\<open>balanceBansUsed\<close> holds 0 in the session, if there is one.\<close>

definition balance_unused :: "server \<Rightarrow> bool" where
  "balance_unused s =
     (case currentDraftState s of None \<Rightarrow> True | Some d \<Rightarrow> balanceBansUsed d = 0)"

text \<open>
  A whole draft under the configuration of the source, and the server after some of
  its prefixes: after the start and one ban, after the two bans of phase 1, and after
  the last pick.
\<close>

definition full_draft :: "event list" where
  "full_draft =
     [Start (Some alice) 0,
      Ban (Some alice) ''a'', Ban (Some bob) ''b'',
      Pick (Some alice) ''c'', Pick (Some bob) ''d'', Pick (Some bob) ''e'',
      Pick (Some alice) ''f'', Pick (Some alice) ''g'', Pick (Some bob) ''h'',
      Ban (Some alice) ''i'', Ban (Some bob) ''j'',
      Pick (Some bob) ''k'', Pick (Some alice) ''l'', Pick (Some alice) ''m'',
      Pick (Some bob) ''n'', Pick (Some bob) ''o'', Pick (Some alice) ''p'']"

definition one_ban :: server where
  "one_ban = run (seated initial_config) (take 2 full_draft)"

definition in_pick1 :: server where
  "in_pick1 = run (seated initial_config) (take 3 full_draft)"

definition completed :: server where
  "completed = run (seated initial_config) full_draft"

text \<open>The sum of the two counts of a pick phase, and whether both have reached 3.\<close>

definition total :: "counts \<Rightarrow> int" where
  "total c = player1 c + player2 c"

definition quota_met :: "counts \<Rightarrow> bool" where
  "quota_met c = (player1 c \<ge> 3 \<and> player2 c \<ge> 3)"

text \<open>
  The server after the first \<open>k\<close> messages of \<open>full_draft\<close>. And the same for the three
  bans of phase 1 under a configuration with one balance ban for player 1.
\<close>

definition reached :: "nat \<Rightarrow> server" where
  "reached k = run (seated initial_config) (take k full_draft)"

definition balance_config :: draft_config where
  "balance_config =
     \<lparr>bansPhase1 = 1, bansPhase2 = 1, balanceBans = 1, balanceBansPlayer = 1\<rparr>"

definition balance_draft :: "event list" where
  "balance_draft =
     [Start (Some alice) 0,
      Ban (Some alice) ''a'', Ban (Some bob) ''b'', Ban (Some alice) ''c'']"

definition reached_balance :: "nat \<Rightarrow> server" where
  "reached_balance k = run (seated balance_config) (take k balance_draft)"

text \<open>
  The bound of the specification on the counters: a phase-1 ban count is at most
  \<open>need\<close>, a phase-2 ban count at most \<open>bansPhase2\<close>, a pick count at most 3.
\<close>

definition within_quota :: "draft_config \<Rightarrow> draft_state \<Rightarrow> bool" where
  "within_quota cfg d =
     (player1 (currentPhase1BanCount d) \<le> need cfg 1
      \<and> player2 (currentPhase1BanCount d) \<le> need cfg 2
      \<and> player1 (currentPhase2BanCount d) \<le> bansPhase2 cfg
      \<and> player2 (currentPhase2BanCount d) \<le> bansPhase2 cfg
      \<and> player1 (currentPick1Count d) \<le> 3 \<and> player2 (currentPick1Count d) \<le> 3
      \<and> player1 (currentPick2Count d) \<le> 3 \<and> player2 (currentPick2Count d) \<le> 3)"

definition quota_kept :: "server \<Rightarrow> bool" where
  "quota_kept s =
     (case currentDraftState s of None \<Rightarrow> True
      | Some d \<Rightarrow> within_quota (draftConfig s) d)"

text \<open>
  \<open>bumped p c c'\<close>: from \<open>c\<close> to \<open>c'\<close> the count of player \<open>p\<close> went up by one and the
  count of the other player stayed.
\<close>

definition bumped :: "int \<Rightarrow> counts \<Rightarrow> counts \<Rightarrow> bool" where
  "bumped p c c' =
     (count_of c' p = count_of c p + 1 \<and> count_of c' (flip p) = count_of c (flip p))"

text \<open>A configuration without bans in phase 1.\<close>

definition zero_config :: draft_config where
  "zero_config =
     \<lparr>bansPhase1 = 0, bansPhase2 = 1, balanceBans = 0, balanceBansPlayer = 1\<rparr>"

text \<open>
  What holds of every session that a run from a start reaches, under a configuration
  that gives player 1 a ban in phase 1 and both players a ban in phase 2: the counters
  are within the bound, the turn is on a player who still has a ban to make, and in a
  pick phase the counts and the turn are one of the six states of the draft order.
\<close>

definition no_counts :: "counts \<Rightarrow> bool" where
  "no_counts c = (player1 c = 0 \<and> player2 c = 0)"

definition pick1_states :: "(int \<times> int \<times> int) list" where
  "pick1_states = [(0, 0, 1), (1, 0, 2), (1, 1, 2), (1, 2, 1), (2, 2, 1), (3, 2, 2)]"

definition pick2_states :: "(int \<times> int \<times> int) list" where
  "pick2_states = [(0, 0, 2), (0, 1, 1), (1, 1, 1), (2, 1, 2), (2, 2, 2), (2, 3, 1)]"

definition on_table :: "(int \<times> int \<times> int) list \<Rightarrow> counts \<Rightarrow> int \<Rightarrow> bool" where
  "on_table states c p = ((player1 c, player2 c, p) \<in> set states)"

definition turn_inv :: "draft_config \<Rightarrow> draft_state \<Rightarrow> bool" where
  "turn_inv cfg d =
     (within_quota cfg d
      \<and> (currentPlayer d = 1 \<or> currentPlayer d = 2)
      \<and> (case phase d of
            Ban1 \<Rightarrow>
              count_of (currentPhase1BanCount d) (currentPlayer d) < need cfg (currentPlayer d)
              \<and> no_counts (currentPhase2BanCount d)
              \<and> no_counts (currentPick1Count d) \<and> no_counts (currentPick2Count d)
          | Pick1 \<Rightarrow>
              on_table pick1_states (currentPick1Count d) (currentPlayer d)
              \<and> no_counts (currentPhase2BanCount d) \<and> no_counts (currentPick2Count d)
          | Ban2 \<Rightarrow>
              count_of (currentPhase2BanCount d) (currentPlayer d) < bansPhase2 cfg
              \<and> no_counts (currentPick2Count d)
          | Pick2 \<Rightarrow> on_table pick2_states (currentPick2Count d) (currentPlayer d)
          | Complete \<Rightarrow> True))"

definition config_ok :: "draft_config \<Rightarrow> bool" where
  "config_ok cfg =
     (0 \<le> bansPhase1 cfg \<and> 0 \<le> balanceBans cfg \<and> 1 \<le> need cfg 1 \<and> 1 \<le> bansPhase2 cfg)"

definition server_inv :: "server \<Rightarrow> bool" where
  "server_inv s =
     (case currentDraftState s of None \<Rightarrow> True | Some d \<Rightarrow> turn_inv (draftConfig s) d)"

text \<open>
  The item ids of the bans and of the picks, and the invariant of the specification on
  them: no id twice in either, and no id in both.
\<close>

definition banned_ids :: "server \<Rightarrow> string list" where
  "banned_ids s =
     (case currentDraftState s of None \<Rightarrow> [] | Some d \<Rightarrow> map ban_characterId (bans d))"

definition picked_ids :: "server \<Rightarrow> string list" where
  "picked_ids s =
     (case currentDraftState s of None \<Rightarrow> [] | Some d \<Rightarrow> map pick_characterId (picks d))"

definition item_invariant :: "server \<Rightarrow> bool" where
  "item_invariant s =
     (distinct (banned_ids s) \<and> distinct (picked_ids s)
      \<and> set (banned_ids s) \<inter> set (picked_ids s) = {})"

text \<open>
  A seated player in the words of the specification: the seat is taken, by a user of
  the same \<^verbatim>\<open>discordId\<close>. \<open>seat_of\<close> is the number of the first such seat.
\<close>

definition sits :: "user option \<Rightarrow> user \<Rightarrow> bool" where
  "sits seat a = (case seat of None \<Rightarrow> False | Some p \<Rightarrow> discordId p = discordId a)"

definition seat_of :: "draft_room \<Rightarrow> user \<Rightarrow> int option" where
  "seat_of room a =
     (if sits (room_player1 room) a then Some 1
      else if sits (room_player2 room) a then Some 2
      else None)"

text \<open>
  A third user, a user whose login payload had no \<^verbatim>\<open>discordId\<close>, and the started
  server after player 1 has left the seat (\<^verbatim>\<open>room:leave\<close> and \<^verbatim>\<open>disconnect\<close> empty a
  seat and leave the session alone).
\<close>

definition carol :: user where
  "carol = \<lparr>discordId = Id ''carol''\<rparr>"

definition nobody :: user where
  "nobody = \<lparr>discordId = Undefined\<rparr>"

definition seat1_left :: server where
  "seat1_left =
     (started initial_config)
       \<lparr>draftRoom := \<lparr>room_player1 = None, room_player2 = Some bob\<rparr>\<rparr>"

section \<open>Basic facts about the handlers\<close>

lemma getPlayerNumber_range:
  "getPlayerNumber room u = Some n \<Longrightarrow> n = 1 \<or> n = 2"
  by (auto simp: getPlayerNumber_def split: if_splits)

lemma draft_ban_success:
  assumes "draft_ban s user c = (DraftUpdated, s')"
  shows "\<exists>u d. user = Some u
           \<and> getPlayerNumber (draftRoom s) (discordId u) = Some (currentPlayer d)
           \<and> currentDraftState s = Some d
           \<and> startsWith_ban (phase d)
           \<and> \<not> list_ex (\<lambda>b. ban_characterId b = c) (bans d)
           \<and> s' = s\<lparr>currentDraftState :=
                      Some (advance (draftConfig s) (ban_mutation d (currentPlayer d) c))\<rparr>"
  using assms
  by (auto simp: draft_ban_def advanceDraftState_def split: option.splits if_splits)

lemma draft_pick_success:
  assumes "draft_pick s user c = (DraftUpdated, s')"
  shows "\<exists>u d. user = Some u
           \<and> getPlayerNumber (draftRoom s) (discordId u) = Some (currentPlayer d)
           \<and> currentDraftState s = Some d
           \<and> startsWith_pick (phase d)
           \<and> \<not> list_ex (\<lambda>b. ban_characterId b = c) (bans d)
           \<and> \<not> list_ex (\<lambda>p. pick_characterId p = c) (picks d)
           \<and> s' = s\<lparr>currentDraftState :=
                      Some (advance (draftConfig s) (pick_mutation d (currentPlayer d) c))\<rparr>"
  using assms
  by (auto simp: draft_pick_def advanceDraftState_def split: option.splits if_splits)

lemma advance_ban1_cases:
  "advance_ban1 cfg d = d\<lparr>phase := Pick1, currentPlayer := 1\<rparr>
   \<or> advance_ban1 cfg d = d\<lparr>currentPlayer := 1\<rparr>
   \<or> advance_ban1 cfg d = d\<lparr>currentPlayer := 2\<rparr>"
  unfolding advance_ban1_def Let_def by (simp split: if_splits)

lemma advance_pick1_cases:
  "advance_pick1 d = d\<lparr>phase := Ban2, currentPlayer := 1\<rparr>
   \<or> advance_pick1 d = d\<lparr>currentPlayer := 1\<rparr>
   \<or> advance_pick1 d = d\<lparr>currentPlayer := 2\<rparr>
   \<or> advance_pick1 d = d"
  unfolding advance_pick1_def Let_def by (simp split: if_splits)

lemma advance_ban2_cases:
  "advance_ban2 cfg d = d\<lparr>phase := Pick2, currentPlayer := 2\<rparr>
   \<or> advance_ban2 cfg d = d\<lparr>currentPlayer := 1\<rparr>
   \<or> advance_ban2 cfg d = d\<lparr>currentPlayer := 2\<rparr>"
  unfolding advance_ban2_def Let_def by (simp split: if_splits)

lemma advance_pick2_cases:
  "advance_pick2 d = d\<lparr>phase := Complete\<rparr>
   \<or> advance_pick2 d = d\<lparr>currentPlayer := 1\<rparr>
   \<or> advance_pick2 d = d\<lparr>currentPlayer := 2\<rparr>
   \<or> advance_pick2 d = d"
  unfolding advance_pick2_def Let_def by (simp split: if_splits)

text \<open>\<^verbatim>\<open>advanceDraftState\<close> writes the phase and the turn, and nothing else.\<close>

lemma advance_shape:
  "advance cfg d = d
   \<or> advance cfg d = d\<lparr>currentPlayer := 1\<rparr>
   \<or> advance cfg d = d\<lparr>currentPlayer := 2\<rparr>
   \<or> (\<exists>p n. phase_succ (phase d) = Some p
          \<and> advance cfg d = d\<lparr>phase := p, currentPlayer := n\<rparr>)
   \<or> (phase d = Pick2 \<and> advance cfg d = d\<lparr>phase := Complete\<rparr>)"
proof (cases "phase d")
  case Ban1
  then show ?thesis
    using advance_ban1_cases [of cfg d] by (auto simp: advance_def)
next
  case Pick1
  then show ?thesis
    using advance_pick1_cases [of d] by (auto simp: advance_def)
next
  case Ban2
  then show ?thesis
    using advance_ban2_cases [of cfg d] by (auto simp: advance_def)
next
  case Pick2
  then show ?thesis
    using advance_pick2_cases [of d] by (auto simp: advance_def)
next
  case Complete
  then show ?thesis by (simp add: advance_def)
qed

lemma advance_frame:
  "bans (advance cfg d) = bans d"
  "picks (advance cfg d) = picks d"
  "player1Picks (advance cfg d) = player1Picks d"
  "player2Picks (advance cfg d) = player2Picks d"
  "currentPhase1BanCount (advance cfg d) = currentPhase1BanCount d"
  "currentPhase2BanCount (advance cfg d) = currentPhase2BanCount d"
  "currentPick1Count (advance cfg d) = currentPick1Count d"
  "currentPick2Count (advance cfg d) = currentPick2Count d"
  "balanceBansUsed (advance cfg d) = balanceBansUsed d"
  "timerStartedAt (advance cfg d) = timerStartedAt d"
  using advance_shape [of cfg d] by auto

lemma advance_phase:
  "phase (advance cfg d) = phase d \<or> phase_succ (phase d) = Some (phase (advance cfg d))"
  using advance_shape [of cfg d] by auto

lemma ban_mutation_frame:
  "phase (ban_mutation d n c) = phase d"
  "currentPlayer (ban_mutation d n c) = currentPlayer d"
  "picks (ban_mutation d n c) = picks d"
  "player1Picks (ban_mutation d n c) = player1Picks d"
  "player2Picks (ban_mutation d n c) = player2Picks d"
  "currentPick1Count (ban_mutation d n c) = currentPick1Count d"
  "currentPick2Count (ban_mutation d n c) = currentPick2Count d"
  "balanceBansUsed (ban_mutation d n c) = balanceBansUsed d"
  "timerStartedAt (ban_mutation d n c) = timerStartedAt d"
  by (simp_all add: ban_mutation_def Let_def)

lemma pick_mutation_frame:
  "phase (pick_mutation d n c) = phase d"
  "currentPlayer (pick_mutation d n c) = currentPlayer d"
  "bans (pick_mutation d n c) = bans d"
  "currentPhase1BanCount (pick_mutation d n c) = currentPhase1BanCount d"
  "currentPhase2BanCount (pick_mutation d n c) = currentPhase2BanCount d"
  "balanceBansUsed (pick_mutation d n c) = balanceBansUsed d"
  "timerStartedAt (pick_mutation d n c) = timerStartedAt d"
  by (simp_all add: pick_mutation_def Let_def)

lemma ban_mutation_counts:
  "currentPhase1BanCount (ban_mutation d n c) =
     (if phase d = Ban1 then increment n (currentPhase1BanCount d)
      else currentPhase1BanCount d)"
  "currentPhase2BanCount (ban_mutation d n c) =
     (if phase d = Ban1 then currentPhase2BanCount d
      else increment n (currentPhase2BanCount d))"
  by (simp_all add: ban_mutation_def Let_def)

lemma pick_mutation_counts:
  "currentPick1Count (pick_mutation d n c) =
     (if phase d = Pick1 then increment n (currentPick1Count d)
      else currentPick1Count d)"
  "currentPick2Count (pick_mutation d n c) =
     (if phase d = Pick1 then currentPick2Count d
      else increment n (currentPick2Count d))"
  by (simp_all add: pick_mutation_def Let_def)

lemma draft_ban_unchanged:
  "fst (draft_ban s user c) \<noteq> DraftUpdated \<Longrightarrow> snd (draft_ban s user c) = s"
  by (auto simp: draft_ban_def split: option.splits if_splits)

lemma draft_pick_unchanged:
  "fst (draft_pick s user c) \<noteq> DraftUpdated \<Longrightarrow> snd (draft_pick s user c) = s"
  by (auto simp: draft_pick_def split: option.splits if_splits)

lemma draft_ban_result:
  "snd (draft_ban s user c) = s
   \<or> (\<exists>d. currentDraftState s = Some d \<and> startsWith_ban (phase d)
         \<and> fst (draft_ban s user c) = DraftUpdated
         \<and> snd (draft_ban s user c) = s\<lparr>currentDraftState :=
              Some (advance (draftConfig s) (ban_mutation d (currentPlayer d) c))\<rparr>)"
proof (cases "fst (draft_ban s user c) = DraftUpdated")
  case True
  then have "draft_ban s user c = (DraftUpdated, snd (draft_ban s user c))"
    by (metis prod.collapse)
  from draft_ban_success [OF this] True show ?thesis by blast
next
  case False
  then show ?thesis by (simp add: draft_ban_unchanged)
qed

lemma draft_pick_result:
  "snd (draft_pick s user c) = s
   \<or> (\<exists>d. currentDraftState s = Some d \<and> startsWith_pick (phase d)
         \<and> fst (draft_pick s user c) = DraftUpdated
         \<and> snd (draft_pick s user c) = s\<lparr>currentDraftState :=
              Some (advance (draftConfig s) (pick_mutation d (currentPlayer d) c))\<rparr>)"
proof (cases "fst (draft_pick s user c) = DraftUpdated")
  case True
  then have "draft_pick s user c = (DraftUpdated, snd (draft_pick s user c))"
    by (metis prod.collapse)
  from draft_pick_success [OF this] True show ?thesis by blast
next
  case False
  then show ?thesis by (simp add: draft_pick_unchanged)
qed

lemma startsWith_ban_iff: "startsWith_ban p \<longleftrightarrow> p = Ban1 \<or> p = Ban2"
  by (cases p) simp_all

lemma startsWith_pick_iff: "startsWith_pick p \<longleftrightarrow> p = Pick1 \<or> p = Pick2"
  by (cases p) simp_all

lemma ban_mutation_bans:
  "bans (ban_mutation d n c) =
     bans d @ [\<lparr>ban_characterId = c,
                ban_phase = (if phase d = Ban1 then ''phase1'' else ''phase2''),
                bannedBy = n\<rparr>]"
  by (simp add: ban_mutation_def Let_def)

lemma pick_mutation_picks:
  "picks (pick_mutation d n c) =
     picks d @ [\<lparr>pick_characterId = c, pickedBy = n,
                 pick_order = int (length (picks d)) + 1\<rparr>]"
  by (simp add: pick_mutation_def Let_def)

lemma draft_ban_checks:
  assumes "getPlayerNumber (draftRoom s) (discordId a) = Some n" "currentDraftState s = Some d"
  shows "draft_ban s (Some a) i =
     (if currentPlayer d \<noteq> n then (EmitError NotYourTurn, s)
      else if \<not> startsWith_ban (phase d) then (EmitError WrongPhaseKind, s)
      else if list_ex (\<lambda>b. ban_characterId b = i) (bans d)
      then (EmitError ItemAlreadyBanned, s)
      else (DraftUpdated,
            s\<lparr>currentDraftState := Some (advance (draftConfig s) (ban_mutation d n i))\<rparr>))"
  using assms by (simp add: draft_ban_def advanceDraftState_def)

lemma draft_pick_checks:
  assumes "getPlayerNumber (draftRoom s) (discordId a) = Some n" "currentDraftState s = Some d"
  shows "draft_pick s (Some a) i =
     (if currentPlayer d \<noteq> n then (EmitError NotYourTurn, s)
      else if \<not> startsWith_pick (phase d) then (EmitError WrongPhaseKind, s)
      else if list_ex (\<lambda>b. ban_characterId b = i) (bans d)
      then (EmitError ItemAlreadyBanned, s)
      else if list_ex (\<lambda>p. pick_characterId p = i) (picks d)
      then (EmitError ItemAlreadyPicked, s)
      else (DraftUpdated,
            s\<lparr>currentDraftState := Some (advance (draftConfig s) (pick_mutation d n i))\<rparr>))"
  using assms by (simp add: draft_pick_def advanceDraftState_def)

section \<open>The phase only moves forward\<close>

text \<open>
  Claim C7. A successful ban or pick leaves the phase where it was or moves it to the
  immediate successor in the order ban1, pick1, ban2, pick2, complete: it never moves the
  phase backward and never skips a phase.
\<close>

theorem phase_forward:
  "draft_ban s user c = (DraftUpdated, s') \<or> draft_pick s user c = (DraftUpdated, s')
   \<Longrightarrow> \<exists>d d'. currentDraftState s = Some d \<and> currentDraftState s' = Some d'
          \<and> (phase d' = phase d \<or> phase_succ (phase d) = Some (phase d'))"
proof (erule disjE)
  assume "draft_ban s user c = (DraftUpdated, s')"
  from draft_ban_success [OF this] obtain d where
    d: "currentDraftState s = Some d"
    and s': "s' = s\<lparr>currentDraftState :=
               Some (advance (draftConfig s) (ban_mutation d (currentPlayer d) c))\<rparr>"
    by blast
  show ?thesis
    using d s' advance_phase [of "draftConfig s" "ban_mutation d (currentPlayer d) c"]
    by (simp add: ban_mutation_frame)
next
  assume "draft_pick s user c = (DraftUpdated, s')"
  from draft_pick_success [OF this] obtain d where
    d: "currentDraftState s = Some d"
    and s': "s' = s\<lparr>currentDraftState :=
               Some (advance (draftConfig s) (pick_mutation d (currentPlayer d) c))\<rparr>"
    by blast
  show ?thesis
    using d s' advance_phase [of "draftConfig s" "pick_mutation d (currentPlayer d) c"]
    by (simp add: pick_mutation_frame)
qed

text \<open>The first ban of a draft under the configuration of the source.\<close>

theorem phase_forward_witness:
  "(draft_ban (started initial_config) (Some alice) ''a''
      = (DraftUpdated, snd (draft_ban (started initial_config) (Some alice) ''a''))
    \<or> draft_pick (started initial_config) (Some alice) ''a''
      = (DraftUpdated, snd (draft_ban (started initial_config) (Some alice) ''a'')))
   \<and> (\<exists>d d'. currentDraftState (started initial_config) = Some d
         \<and> currentDraftState (snd (draft_ban (started initial_config) (Some alice) ''a''))
             = Some d'
         \<and> (phase d' = phase d \<or> phase_succ (phase d) = Some (phase d')))"
proof -
  have h: "draft_ban (started initial_config) (Some alice) ''a''
      = (DraftUpdated, snd (draft_ban (started initial_config) (Some alice) ''a''))
    \<or> draft_pick (started initial_config) (Some alice) ''a''
      = (DraftUpdated, snd (draft_ban (started initial_config) (Some alice) ''a''))"
    by code_simp
  from h phase_forward [OF h] show ?thesis by (rule conjI)
qed

section \<open>Failed attempts change nothing\<close>

text \<open>
  Claim C9. A ban or pick attempt that does not succeed (it emits an error, or nothing
  at all) leaves the server state, and so the session, exactly as it was: every check
  comes before every write.
\<close>

theorem failure_unchanged:
  "(draft_ban s user c = (r, s') \<and> r \<noteq> DraftUpdated \<longrightarrow> s' = s)
   \<and> (draft_pick s user c = (r, s') \<and> r \<noteq> DraftUpdated \<longrightarrow> s' = s)"
  by (auto simp: draft_ban_def draft_pick_def split: option.splits if_splits)

text \<open>A ban out of turn and a pick in a ban phase, on a running draft.\<close>

theorem failure_unchanged_witness:
  "(draft_ban (started initial_config) (Some bob) ''a''
      = (EmitError NotYourTurn, snd (draft_ban (started initial_config) (Some bob) ''a''))
    \<and> EmitError NotYourTurn \<noteq> DraftUpdated)
   \<and> snd (draft_ban (started initial_config) (Some bob) ''a'') = started initial_config
   \<and> (draft_pick (started initial_config) (Some alice) ''a''
      = (EmitError WrongPhaseKind,
         snd (draft_pick (started initial_config) (Some alice) ''a''))
    \<and> EmitError WrongPhaseKind \<noteq> DraftUpdated)
   \<and> snd (draft_pick (started initial_config) (Some alice) ''a'') = started initial_config"
proof -
  have b: "draft_ban (started initial_config) (Some bob) ''a''
      = (EmitError NotYourTurn, snd (draft_ban (started initial_config) (Some bob) ''a''))
    \<and> EmitError NotYourTurn \<noteq> DraftUpdated"
    by code_simp
  have p: "draft_pick (started initial_config) (Some alice) ''a''
      = (EmitError WrongPhaseKind,
         snd (draft_pick (started initial_config) (Some alice) ''a''))
    \<and> EmitError WrongPhaseKind \<noteq> DraftUpdated"
    by code_simp
  have b': "snd (draft_ban (started initial_config) (Some bob) ''a'')
      = started initial_config"
    using b failure_unchanged [of "started initial_config" "Some bob" "''a''"
        "EmitError NotYourTurn" "snd (draft_ban (started initial_config) (Some bob) ''a'')"]
    by blast
  have p': "snd (draft_pick (started initial_config) (Some alice) ''a'')
      = started initial_config"
    using p failure_unchanged [of "started initial_config" "Some alice" "''a''"
        "EmitError WrongPhaseKind"
        "snd (draft_pick (started initial_config) (Some alice) ''a'')"]
    by blast
  from b b' p p' show ?thesis by blast
qed

section \<open>What a ban and a pick leave alone\<close>

lemma draft_start_balance: "balance_unused (snd (draft_start s user now))
   \<or> snd (draft_start s user now) = s"
  by (simp add: draft_start_def balance_unused_def split: option.splits)

lemma step_balance_unused:
  assumes "balance_unused s"
  shows "balance_unused (snd (step s e))"
proof (cases e)
  case (Start user now)
  then show ?thesis
    using assms draft_start_balance [of s user now] by auto
next
  case (Ban user c)
  then show ?thesis
    using assms draft_ban_result [of s user c]
    by (auto simp: balance_unused_def advance_frame ban_mutation_frame)
next
  case (Pick user c)
  then show ?thesis
    using assms draft_pick_result [of s user c]
    by (auto simp: balance_unused_def advance_frame pick_mutation_frame)
next
  case (Reset user)
  then show ?thesis
    using assms by (auto simp: draft_reset_def balance_unused_def split: option.splits)
qed

lemma run_balance_unused: "balance_unused s \<Longrightarrow> balance_unused (run s es)"
  by (induction es arbitrary: s) (simp_all add: step_balance_unused)

text \<open>
  Claim C10. A successful ban leaves \<^verbatim>\<open>picks\<close>, \<^verbatim>\<open>player1Picks\<close>, \<^verbatim>\<open>player2Picks\<close>, both
  pick counters and \<^verbatim>\<open>balanceBansUsed\<close> as they were; a successful pick leaves \<^verbatim>\<open>bans\<close>,
  both ban counters and \<^verbatim>\<open>balanceBansUsed\<close> as they were. And from a successful start
  on, whatever draft messages follow, \<^verbatim>\<open>balanceBansUsed\<close> of the session is 0.
\<close>

theorem frame_effects:
  "(draft_ban sb ub cb = (DraftUpdated, sb') \<longrightarrow>
      (\<exists>d d'. currentDraftState sb = Some d \<and> currentDraftState sb' = Some d'
         \<and> picks d' = picks d
         \<and> player1Picks d' = player1Picks d \<and> player2Picks d' = player2Picks d
         \<and> currentPick1Count d' = currentPick1Count d
         \<and> currentPick2Count d' = currentPick2Count d
         \<and> balanceBansUsed d' = balanceBansUsed d))
   \<and> (draft_pick sp up cp = (DraftUpdated, sp') \<longrightarrow>
      (\<exists>d d'. currentDraftState sp = Some d \<and> currentDraftState sp' = Some d'
         \<and> bans d' = bans d
         \<and> currentPhase1BanCount d' = currentPhase1BanCount d
         \<and> currentPhase2BanCount d' = currentPhase2BanCount d
         \<and> balanceBansUsed d' = balanceBansUsed d))
   \<and> (draft_start s0 u0 now = (DraftStarted, s1) \<longrightarrow> balance_unused (run s1 es))"
proof (intro conjI impI)
  assume "draft_ban sb ub cb = (DraftUpdated, sb')"
  from draft_ban_success [OF this] obtain d where
    "currentDraftState sb = Some d"
    "sb' = sb\<lparr>currentDraftState :=
       Some (advance (draftConfig sb) (ban_mutation d (currentPlayer d) cb))\<rparr>"
    by blast
  then show "\<exists>d d'. currentDraftState sb = Some d \<and> currentDraftState sb' = Some d'
         \<and> picks d' = picks d
         \<and> player1Picks d' = player1Picks d \<and> player2Picks d' = player2Picks d
         \<and> currentPick1Count d' = currentPick1Count d
         \<and> currentPick2Count d' = currentPick2Count d
         \<and> balanceBansUsed d' = balanceBansUsed d"
    by (simp add: advance_frame ban_mutation_frame)
next
  assume "draft_pick sp up cp = (DraftUpdated, sp')"
  from draft_pick_success [OF this] obtain d where
    "currentDraftState sp = Some d"
    "sp' = sp\<lparr>currentDraftState :=
       Some (advance (draftConfig sp) (pick_mutation d (currentPlayer d) cp))\<rparr>"
    by blast
  then show "\<exists>d d'. currentDraftState sp = Some d \<and> currentDraftState sp' = Some d'
         \<and> bans d' = bans d
         \<and> currentPhase1BanCount d' = currentPhase1BanCount d
         \<and> currentPhase2BanCount d' = currentPhase2BanCount d
         \<and> balanceBansUsed d' = balanceBansUsed d"
    by (simp add: advance_frame pick_mutation_frame)
next
  assume "draft_start s0 u0 now = (DraftStarted, s1)"
  then have "balance_unused s1"
    by (auto simp: draft_start_def balance_unused_def split: option.splits if_splits)
  then show "balance_unused (run s1 es)" by (rule run_balance_unused)
qed

text \<open>The first ban, the first pick and a whole draft under the configuration of the source.\<close>

theorem frame_effects_witness:
  "draft_ban (started initial_config) (Some alice) ''a''
     = (DraftUpdated, snd (draft_ban (started initial_config) (Some alice) ''a''))
   \<and> draft_pick in_pick1 (Some alice) ''c''
     = (DraftUpdated, snd (draft_pick in_pick1 (Some alice) ''c''))
   \<and> draft_start (seated initial_config) (Some alice) 0
     = (DraftStarted, started initial_config)
   \<and> (\<exists>d d'. currentDraftState (started initial_config) = Some d
         \<and> currentDraftState (snd (draft_ban (started initial_config) (Some alice) ''a''))
              = Some d'
         \<and> picks d' = picks d
         \<and> player1Picks d' = player1Picks d \<and> player2Picks d' = player2Picks d
         \<and> currentPick1Count d' = currentPick1Count d
         \<and> currentPick2Count d' = currentPick2Count d
         \<and> balanceBansUsed d' = balanceBansUsed d)
   \<and> (\<exists>d d'. currentDraftState in_pick1 = Some d
         \<and> currentDraftState (snd (draft_pick in_pick1 (Some alice) ''c'')) = Some d'
         \<and> bans d' = bans d
         \<and> currentPhase1BanCount d' = currentPhase1BanCount d
         \<and> currentPhase2BanCount d' = currentPhase2BanCount d
         \<and> balanceBansUsed d' = balanceBansUsed d)
   \<and> balance_unused (run (started initial_config) (tl full_draft))"
proof -
  have b: "draft_ban (started initial_config) (Some alice) ''a''
     = (DraftUpdated, snd (draft_ban (started initial_config) (Some alice) ''a''))"
    by code_simp
  have p: "draft_pick in_pick1 (Some alice) ''c''
     = (DraftUpdated, snd (draft_pick in_pick1 (Some alice) ''c''))"
    by code_simp
  have s: "draft_start (seated initial_config) (Some alice) 0
     = (DraftStarted, started initial_config)"
    by code_simp
  show ?thesis
    using b p s
      frame_effects [of "started initial_config" "Some alice" "''a''"
        "snd (draft_ban (started initial_config) (Some alice) ''a'')"
        in_pick1 "Some alice" "''c''"
        "snd (draft_pick in_pick1 (Some alice) ''c'')"
        "seated initial_config" "Some alice" 0 "started initial_config"
        "tl full_draft"]
    by blast
qed

section \<open>The checks of a ban, in order\<close>

text \<open>
  For a user with a \<^verbatim>\<open>discordId\<close>, \<^verbatim>\<open>getPlayerNumber\<close> is the number of the seat.
\<close>

lemma getPlayerNumber_seat_of:
  "discordId a \<noteq> Undefined \<Longrightarrow> getPlayerNumber room (discordId a) = seat_of room a"
  by (auto simp: getPlayerNumber_def seat_of_def sits_def seat_discordId_def
      split: option.splits)

text \<open>
  Without a \<^verbatim>\<open>discordId\<close> it is not: \<^verbatim>\<open>undefined === undefined\<close> holds on an empty seat,
  so a user in no seat whose login payload had no \<^verbatim>\<open>discordId\<close> acts as the player of
  the empty seat, and the ban is accepted.
\<close>

lemma undefined_id_takes_empty_seat:
  "seat_of (draftRoom seat1_left) nobody = None
   \<and> getPlayerNumber (draftRoom seat1_left) (discordId nobody) = Some 1
   \<and> fst (draft_ban seat1_left (Some nobody) ''a'') = DraftUpdated"
  by code_simp

text \<open>
  In the last phase the turn check still comes before the phase check: the seated
  player whose turn it is not gets \<open>NotYourTurn\<close>, not \<open>WrongPhaseKind\<close>. Here the draft
  of \<open>full_draft\<close> is over, the turn is left on player 1, and player 2 tries a ban.
\<close>

theorem complete_not_your_turn:
  "phase_of completed = Some Complete
   \<and> discordId bob \<noteq> Undefined
   \<and> seat_of (draftRoom completed) bob = Some 2
   \<and> actor completed (Some bob) = Some 2
   \<and> fst (draft_ban completed (Some bob) ''z'') = EmitError NotYourTurn
   \<and> fst (draft_ban completed (Some bob) ''z'') \<noteq> EmitError WrongPhaseKind"
  by code_simp

text \<open>
  Claim C8, amended. A ban attempt on item \<open>i\<close> by an authenticated user \<open>a\<close> whose
  \<^verbatim>\<open>discordId\<close> is defined fails with \<open>NotAPlayer\<close> if \<open>a\<close> sits in neither seat; else with
  \<open>NoActiveSession\<close> if there is no session; else with \<open>NotYourTurn\<close> if the turn is not
  on the seat number of \<open>a\<close>; else with \<open>WrongPhaseKind\<close> if the phase is neither ban1 nor
  ban2; else with \<open>ItemAlreadyBanned\<close> if \<open>i\<close> is among the bans; and otherwise it succeeds
  and appends the ban. Every failure leaves the server as it was. In particular, after a
  reset a ban or pick attempt of such a seated player fails with \<open>NoActiveSession\<close>, and
  in phase complete a ban or pick attempt of such a seated player fails with
  \<open>WrongPhaseKind\<close> when the turn is on that player and with \<open>NotYourTurn\<close> when it is
  not. Of a user without a \<^verbatim>\<open>discordId\<close> the claim says nothing.
\<close>

theorem ban_validation:
  "(discordId a \<noteq> Undefined \<and> seat_of (draftRoom s) a = None \<longrightarrow>
      draft_ban s (Some a) i = (EmitError NotAPlayer, s))
   \<and> (discordId a \<noteq> Undefined \<and> seat_of (draftRoom s) a = Some n
        \<and> currentDraftState s = None \<longrightarrow>
      draft_ban s (Some a) i = (EmitError NoActiveSession, s))
   \<and> (discordId a \<noteq> Undefined \<and> seat_of (draftRoom s) a = Some n
        \<and> currentDraftState s = Some d \<and> currentPlayer d \<noteq> n \<longrightarrow>
      draft_ban s (Some a) i = (EmitError NotYourTurn, s))
   \<and> (discordId a \<noteq> Undefined \<and> seat_of (draftRoom s) a = Some n
        \<and> currentDraftState s = Some d
        \<and> currentPlayer d = n \<and> phase d \<noteq> Ban1 \<and> phase d \<noteq> Ban2 \<longrightarrow>
      draft_ban s (Some a) i = (EmitError WrongPhaseKind, s))
   \<and> (discordId a \<noteq> Undefined \<and> seat_of (draftRoom s) a = Some n
        \<and> currentDraftState s = Some d
        \<and> currentPlayer d = n \<and> (phase d = Ban1 \<or> phase d = Ban2)
        \<and> i \<in> ban_characterId ` set (bans d) \<longrightarrow>
      draft_ban s (Some a) i = (EmitError ItemAlreadyBanned, s))
   \<and> (discordId a \<noteq> Undefined \<and> seat_of (draftRoom s) a = Some n
        \<and> currentDraftState s = Some d
        \<and> currentPlayer d = n \<and> (phase d = Ban1 \<or> phase d = Ban2)
        \<and> i \<notin> ban_characterId ` set (bans d) \<longrightarrow>
      fst (draft_ban s (Some a) i) = DraftUpdated
      \<and> (\<exists>d'. currentDraftState (snd (draft_ban s (Some a) i)) = Some d'
            \<and> bans d' = bans d @
                 [\<lparr>ban_characterId = i,
                   ban_phase = (if phase d = Ban1 then ''phase1'' else ''phase2''),
                   bannedBy = n\<rparr>]))
   \<and> (discordId a \<noteq> Undefined \<and> seat_of (draftRoom s) a = Some n \<longrightarrow>
      draft_ban (snd (draft_reset s (Some r))) (Some a) i
        = (EmitError NoActiveSession, snd (draft_reset s (Some r)))
      \<and> draft_pick (snd (draft_reset s (Some r))) (Some a) i
        = (EmitError NoActiveSession, snd (draft_reset s (Some r))))
   \<and> (discordId a \<noteq> Undefined \<and> seat_of (draftRoom s) a = Some n
        \<and> currentDraftState s = Some d \<and> phase d = Complete \<longrightarrow>
      draft_ban s (Some a) i
        = (EmitError (if currentPlayer d = n then WrongPhaseKind else NotYourTurn), s)
      \<and> draft_pick s (Some a) i
        = (EmitError (if currentPlayer d = n then WrongPhaseKind else NotYourTurn), s))"
proof -
  have none: "getPlayerNumber (draftRoom s) (discordId a) = None"
    if "discordId a \<noteq> Undefined" "seat_of (draftRoom s) a = None"
    using that by (simp add: getPlayerNumber_seat_of)
  have some: "getPlayerNumber (draftRoom s) (discordId a) = Some n"
    if "discordId a \<noteq> Undefined" "seat_of (draftRoom s) a = Some n"
    using that by (simp add: getPlayerNumber_seat_of)
  have k1: "draft_ban s (Some a) i = (EmitError NotAPlayer, s)"
    if "discordId a \<noteq> Undefined \<and> seat_of (draftRoom s) a = None"
    using none that by (simp add: draft_ban_def)
  have k2: "draft_ban s (Some a) i = (EmitError NoActiveSession, s)"
    if "discordId a \<noteq> Undefined \<and> seat_of (draftRoom s) a = Some n
        \<and> currentDraftState s = None"
    using some that by (simp add: draft_ban_def)
  have k3: "draft_ban s (Some a) i = (EmitError NotYourTurn, s)"
    if "discordId a \<noteq> Undefined \<and> seat_of (draftRoom s) a = Some n
        \<and> currentDraftState s = Some d \<and> currentPlayer d \<noteq> n"
    using some that by (simp add: draft_ban_checks)
  have k4: "draft_ban s (Some a) i = (EmitError WrongPhaseKind, s)"
    if "discordId a \<noteq> Undefined \<and> seat_of (draftRoom s) a = Some n
        \<and> currentDraftState s = Some d
        \<and> currentPlayer d = n \<and> phase d \<noteq> Ban1 \<and> phase d \<noteq> Ban2"
    using some that by (simp add: draft_ban_checks startsWith_ban_iff)
  have k5: "draft_ban s (Some a) i = (EmitError ItemAlreadyBanned, s)"
    if "discordId a \<noteq> Undefined \<and> seat_of (draftRoom s) a = Some n
        \<and> currentDraftState s = Some d
        \<and> currentPlayer d = n \<and> (phase d = Ban1 \<or> phase d = Ban2)
        \<and> i \<in> ban_characterId ` set (bans d)"
    using some that by (auto simp: draft_ban_checks startsWith_ban_iff list_ex_iff)
  have k6: "fst (draft_ban s (Some a) i) = DraftUpdated
      \<and> (\<exists>d'. currentDraftState (snd (draft_ban s (Some a) i)) = Some d'
            \<and> bans d' = bans d @
                 [\<lparr>ban_characterId = i,
                   ban_phase = (if phase d = Ban1 then ''phase1'' else ''phase2''),
                   bannedBy = n\<rparr>])"
    if h: "discordId a \<noteq> Undefined \<and> seat_of (draftRoom s) a = Some n
        \<and> currentDraftState s = Some d
        \<and> currentPlayer d = n \<and> (phase d = Ban1 \<or> phase d = Ban2)
        \<and> i \<notin> ban_characterId ` set (bans d)"
  proof -
    have "draft_ban s (Some a) i = (DraftUpdated,
         s\<lparr>currentDraftState := Some (advance (draftConfig s) (ban_mutation d n i))\<rparr>)"
      using some h by (auto simp: draft_ban_checks startsWith_ban_iff list_ex_iff)
    then show ?thesis by (simp add: advance_frame ban_mutation_bans)
  qed
  have k7: "draft_ban (snd (draft_reset s (Some r))) (Some a) i
        = (EmitError NoActiveSession, snd (draft_reset s (Some r)))
      \<and> draft_pick (snd (draft_reset s (Some r))) (Some a) i
        = (EmitError NoActiveSession, snd (draft_reset s (Some r)))"
    if "discordId a \<noteq> Undefined \<and> seat_of (draftRoom s) a = Some n"
    using some that by (simp add: draft_reset_def draft_ban_def draft_pick_def)
  have k8: "draft_ban s (Some a) i
        = (EmitError (if currentPlayer d = n then WrongPhaseKind else NotYourTurn), s)
      \<and> draft_pick s (Some a) i
        = (EmitError (if currentPlayer d = n then WrongPhaseKind else NotYourTurn), s)"
    if "discordId a \<noteq> Undefined \<and> seat_of (draftRoom s) a = Some n
        \<and> currentDraftState s = Some d \<and> phase d = Complete"
    using some that by (simp add: draft_ban_checks draft_pick_checks)
  show ?thesis
    using k1 k2 k3 k4 k5 k6 k7 k8 by (intro conjI impI) blast+
qed

text \<open>
  One attempt for each check: a user in no seat, a seated player before any start, a
  ban out of turn, a ban in a pick phase, a ban of a banned item, the first ban of a
  draft, a ban and a pick after a reset, and a ban and a pick after the last pick.
\<close>

theorem ban_validation_witness:
  "(discordId carol \<noteq> Undefined \<and> seat_of (draftRoom (started initial_config)) carol = None
    \<and> draft_ban (started initial_config) (Some carol) ''a''
        = (EmitError NotAPlayer, started initial_config))
   \<and> ((discordId alice \<noteq> Undefined \<and> seat_of (draftRoom (seated initial_config)) alice = Some 1
        \<and> currentDraftState (seated initial_config) = None)
    \<and> draft_ban (seated initial_config) (Some alice) ''a''
        = (EmitError NoActiveSession, seated initial_config))
   \<and> ((discordId bob \<noteq> Undefined \<and> seat_of (draftRoom (started initial_config)) bob = Some 2
        \<and> currentDraftState (started initial_config)
            = Some (the (currentDraftState (started initial_config)))
        \<and> currentPlayer (the (currentDraftState (started initial_config))) \<noteq> 2)
    \<and> draft_ban (started initial_config) (Some bob) ''a''
        = (EmitError NotYourTurn, started initial_config))
   \<and> ((discordId alice \<noteq> Undefined \<and> seat_of (draftRoom in_pick1) alice = Some 1
        \<and> currentDraftState in_pick1 = Some (the (currentDraftState in_pick1))
        \<and> currentPlayer (the (currentDraftState in_pick1)) = 1
        \<and> phase (the (currentDraftState in_pick1)) \<noteq> Ban1
        \<and> phase (the (currentDraftState in_pick1)) \<noteq> Ban2)
    \<and> draft_ban in_pick1 (Some alice) ''c'' = (EmitError WrongPhaseKind, in_pick1))
   \<and> ((discordId bob \<noteq> Undefined \<and> seat_of (draftRoom one_ban) bob = Some 2
        \<and> currentDraftState one_ban = Some (the (currentDraftState one_ban))
        \<and> currentPlayer (the (currentDraftState one_ban)) = 2
        \<and> (phase (the (currentDraftState one_ban)) = Ban1
            \<or> phase (the (currentDraftState one_ban)) = Ban2)
        \<and> ''a'' \<in> ban_characterId ` set (bans (the (currentDraftState one_ban))))
    \<and> draft_ban one_ban (Some bob) ''a'' = (EmitError ItemAlreadyBanned, one_ban))
   \<and> ((discordId bob \<noteq> Undefined \<and> seat_of (draftRoom one_ban) bob = Some 2
        \<and> currentDraftState one_ban = Some (the (currentDraftState one_ban))
        \<and> currentPlayer (the (currentDraftState one_ban)) = 2
        \<and> (phase (the (currentDraftState one_ban)) = Ban1
            \<or> phase (the (currentDraftState one_ban)) = Ban2)
        \<and> ''b'' \<notin> ban_characterId ` set (bans (the (currentDraftState one_ban))))
    \<and> fst (draft_ban one_ban (Some bob) ''b'') = DraftUpdated)
   \<and> draft_ban (snd (draft_reset (started initial_config) (Some carol))) (Some alice) ''a''
        = (EmitError NoActiveSession, snd (draft_reset (started initial_config) (Some carol)))
   \<and> draft_pick (snd (draft_reset (started initial_config) (Some carol))) (Some alice) ''a''
        = (EmitError NoActiveSession, snd (draft_reset (started initial_config) (Some carol)))
   \<and> ((discordId alice \<noteq> Undefined \<and> seat_of (draftRoom completed) alice = Some 1
        \<and> currentDraftState completed = Some (the (currentDraftState completed))
        \<and> phase (the (currentDraftState completed)) = Complete)
    \<and> currentPlayer (the (currentDraftState completed)) = 1
    \<and> draft_ban completed (Some alice) ''z'' = (EmitError WrongPhaseKind, completed)
    \<and> draft_pick completed (Some alice) ''z'' = (EmitError WrongPhaseKind, completed))"
proof -
  have h1: "discordId carol \<noteq> Undefined \<and> seat_of (draftRoom (started initial_config)) carol = None"
    by code_simp
  have h2: "discordId alice \<noteq> Undefined \<and> seat_of (draftRoom (seated initial_config)) alice = Some 1
        \<and> currentDraftState (seated initial_config) = None"
    by code_simp
  have h3: "discordId bob \<noteq> Undefined \<and> seat_of (draftRoom (started initial_config)) bob = Some 2
        \<and> currentDraftState (started initial_config)
            = Some (the (currentDraftState (started initial_config)))
        \<and> currentPlayer (the (currentDraftState (started initial_config))) \<noteq> 2"
    by code_simp
  have h4: "discordId alice \<noteq> Undefined \<and> seat_of (draftRoom in_pick1) alice = Some 1
        \<and> currentDraftState in_pick1 = Some (the (currentDraftState in_pick1))
        \<and> currentPlayer (the (currentDraftState in_pick1)) = 1
        \<and> phase (the (currentDraftState in_pick1)) \<noteq> Ban1
        \<and> phase (the (currentDraftState in_pick1)) \<noteq> Ban2"
    by code_simp
  have h5: "discordId bob \<noteq> Undefined \<and> seat_of (draftRoom one_ban) bob = Some 2
        \<and> currentDraftState one_ban = Some (the (currentDraftState one_ban))
        \<and> currentPlayer (the (currentDraftState one_ban)) = 2
        \<and> (phase (the (currentDraftState one_ban)) = Ban1
            \<or> phase (the (currentDraftState one_ban)) = Ban2)
        \<and> ''a'' \<in> ban_characterId ` set (bans (the (currentDraftState one_ban)))"
    by code_simp
  have h6: "discordId bob \<noteq> Undefined \<and> seat_of (draftRoom one_ban) bob = Some 2
        \<and> currentDraftState one_ban = Some (the (currentDraftState one_ban))
        \<and> currentPlayer (the (currentDraftState one_ban)) = 2
        \<and> (phase (the (currentDraftState one_ban)) = Ban1
            \<or> phase (the (currentDraftState one_ban)) = Ban2)
        \<and> ''b'' \<notin> ban_characterId ` set (bans (the (currentDraftState one_ban)))"
    by code_simp
  have h7: "discordId alice \<noteq> Undefined \<and> seat_of (draftRoom (started initial_config)) alice = Some 1"
    by code_simp
  have h8: "discordId alice \<noteq> Undefined \<and> seat_of (draftRoom completed) alice = Some 1
        \<and> currentDraftState completed = Some (the (currentDraftState completed))
        \<and> phase (the (currentDraftState completed)) = Complete"
    by code_simp
  have t8: "currentPlayer (the (currentDraftState completed)) = 1"
    by code_simp
  note c1 = ban_validation [of carol "started initial_config" "''a''"]
  note c2 = ban_validation [of alice "seated initial_config" "''a''" 1]
  note c3 = ban_validation [of bob "started initial_config" "''a''" 2
      "the (currentDraftState (started initial_config))"]
  note c4 = ban_validation [of alice in_pick1 "''c''" 1
      "the (currentDraftState in_pick1)"]
  note c5 = ban_validation [of bob one_ban "''a''" 2 "the (currentDraftState one_ban)"]
  note c6 = ban_validation [of bob one_ban "''b''" 2 "the (currentDraftState one_ban)"]
  note c7 = ban_validation [of alice "started initial_config" "''a''" 1 _ carol]
  note c8 = ban_validation [of alice completed "''z''" 1
      "the (currentDraftState completed)"]
  have r1: "draft_ban (started initial_config) (Some carol) ''a''
        = (EmitError NotAPlayer, started initial_config)"
    using h1 c1 by blast
  have r2: "draft_ban (seated initial_config) (Some alice) ''a''
        = (EmitError NoActiveSession, seated initial_config)"
    using h2 c2 by blast
  have r3: "draft_ban (started initial_config) (Some bob) ''a''
        = (EmitError NotYourTurn, started initial_config)"
    using h3 c3 by blast
  have r4: "draft_ban in_pick1 (Some alice) ''c'' = (EmitError WrongPhaseKind, in_pick1)"
    using h4 c4 by blast
  have r5: "draft_ban one_ban (Some bob) ''a'' = (EmitError ItemAlreadyBanned, one_ban)"
    using h5 c5 by blast
  have r6: "fst (draft_ban one_ban (Some bob) ''b'') = DraftUpdated"
    using h6 c6 by blast
  have r7: "draft_ban (snd (draft_reset (started initial_config) (Some carol))) (Some alice) ''a''
        = (EmitError NoActiveSession, snd (draft_reset (started initial_config) (Some carol)))
   \<and> draft_pick (snd (draft_reset (started initial_config) (Some carol))) (Some alice) ''a''
        = (EmitError NoActiveSession, snd (draft_reset (started initial_config) (Some carol)))"
    using h7 c7 by blast
  have r8: "draft_ban completed (Some alice) ''z'' = (EmitError WrongPhaseKind, completed)
    \<and> draft_pick completed (Some alice) ''z'' = (EmitError WrongPhaseKind, completed)"
    using h8 t8 c8 by simp
  from h1 r1 h2 r2 h3 r3 h4 r4 h5 r5 h6 r6 r7 h8 t8 r8 show ?thesis by blast
qed

section \<open>The turn after a ban\<close>

lemma advance_ban1_spec:
  assumes "currentPlayer m = 1 \<or> currentPlayer m = 2"
  shows "advance_ban1 cfg m =
     (if done1 cfg m 1 \<and> done1 cfg m 2 then m\<lparr>phase := Pick1, currentPlayer := 1\<rparr>
      else m\<lparr>currentPlayer := flip_skip (done1 cfg m) (currentPlayer m)\<rparr>)"
  using assms
  by (auto simp: advance_ban1_def done1_def need_def count_of_def flip_skip_def flip_def
      Let_def)

lemma advance_ban2_spec:
  assumes "currentPlayer m = 1 \<or> currentPlayer m = 2"
  shows "advance_ban2 cfg m =
     (if done2 cfg m 1 \<and> done2 cfg m 2 then m\<lparr>phase := Pick2, currentPlayer := 2\<rparr>
      else m\<lparr>currentPlayer := flip_skip (done2 cfg m) (currentPlayer m)\<rparr>)"
  using assms
  by (auto simp: advance_ban2_def done2_def count_of_def flip_skip_def flip_def Let_def)


lemma done1_cong:
  "currentPhase1BanCount d' = currentPhase1BanCount m \<Longrightarrow> done1 cfg d' = done1 cfg m"
  by (simp add: done1_def fun_eq_iff)

lemma done2_cong:
  "currentPhase2BanCount d' = currentPhase2BanCount m \<Longrightarrow> done2 cfg d' = done2 cfg m"
  by (simp add: done2_def fun_eq_iff)

lemma ban1_step:
  assumes ok: "draft_ban s user c = (DraftUpdated, s')"
    and d: "currentDraftState s = Some d" and ph: "phase d = Ban1"
  shows "actor s user = Some (currentPlayer d) \<and> draftConfig s' = draftConfig s
    \<and> (\<exists>d'. currentDraftState s' = Some d'
          \<and> currentPhase1BanCount d' = increment (currentPlayer d) (currentPhase1BanCount d)
          \<and> (if done1 (draftConfig s) d' 1 \<and> done1 (draftConfig s) d' 2
              then phase d' = Pick1 \<and> currentPlayer d' = 1
              else phase d' = Ban1
                \<and> currentPlayer d' = flip_skip (done1 (draftConfig s) d') (currentPlayer d)))"
proof -
  define m where "m = ban_mutation d (currentPlayer d) c"
  define d' where "d' = advance (draftConfig s) m"
  from draft_ban_success [OF ok] d obtain u where
    u: "user = Some u" and gp: "getPlayerNumber (draftRoom s) (discordId u) = Some (currentPlayer d)"
    and s': "s' = s\<lparr>currentDraftState := Some d'\<rparr>"
    by (auto simp: m_def d'_def)
  have turn: "currentPlayer m = 1 \<or> currentPlayer m = 2"
    using getPlayerNumber_range [OF gp] by (simp add: m_def ban_mutation_frame)
  have phm: "phase m = Ban1" using ph by (simp add: m_def ban_mutation_frame)
  have cnt: "currentPhase1BanCount d' = currentPhase1BanCount m"
    by (simp add: d'_def advance_frame)
  have dn: "done1 (draftConfig s) d' = done1 (draftConfig s) m"
    using cnt by (rule done1_cong)
  have adv: "d' = (if done1 (draftConfig s) m 1 \<and> done1 (draftConfig s) m 2
       then m\<lparr>phase := Pick1, currentPlayer := 1\<rparr>
       else m\<lparr>currentPlayer := flip_skip (done1 (draftConfig s) m) (currentPlayer m)\<rparr>)"
    using phm advance_ban1_spec [OF turn, of "draftConfig s"] by (simp add: d'_def advance_def)
  have a: "actor s user = Some (currentPlayer d)" using u gp by (simp add: actor_def)
  have b: "draftConfig s' = draftConfig s" using s' by simp
  have c1: "currentPhase1BanCount d' = increment (currentPlayer d) (currentPhase1BanCount d)"
    using cnt ph by (simp add: m_def ban_mutation_counts)
  have c2: "if done1 (draftConfig s) d' 1 \<and> done1 (draftConfig s) d' 2
              then phase d' = Pick1 \<and> currentPlayer d' = 1
              else phase d' = Ban1
                \<and> currentPlayer d' = flip_skip (done1 (draftConfig s) d') (currentPlayer d)"
  proof (cases "done1 (draftConfig s) m 1 \<and> done1 (draftConfig s) m 2")
    case True
    have "d' = m\<lparr>phase := Pick1, currentPlayer := 1\<rparr>"
      by (subst adv) (use True in auto)
    then show ?thesis using True dn by simp
  next
    case False
    have "d' = m\<lparr>currentPlayer := flip_skip (done1 (draftConfig s) m) (currentPlayer m)\<rparr>"
      by (subst adv) (use False in auto)
    then have "phase d' = Ban1"
      and "currentPlayer d' = flip_skip (done1 (draftConfig s) m) (currentPlayer d)"
      using phm by (simp_all add: m_def ban_mutation_frame)
    then show ?thesis using False dn by simp
  qed
  from a b s' c1 c2 show ?thesis by simp
qed

lemma ban2_step:
  assumes ok: "draft_ban s user c = (DraftUpdated, s')"
    and d: "currentDraftState s = Some d" and ph: "phase d = Ban2"
  shows "actor s user = Some (currentPlayer d) \<and> draftConfig s' = draftConfig s
    \<and> (\<exists>d'. currentDraftState s' = Some d'
          \<and> currentPhase2BanCount d' = increment (currentPlayer d) (currentPhase2BanCount d)
          \<and> (if done2 (draftConfig s) d' 1 \<and> done2 (draftConfig s) d' 2
              then phase d' = Pick2 \<and> currentPlayer d' = 2
              else phase d' = Ban2
                \<and> currentPlayer d' = flip_skip (done2 (draftConfig s) d') (currentPlayer d)))"
proof -
  define m where "m = ban_mutation d (currentPlayer d) c"
  define d' where "d' = advance (draftConfig s) m"
  from draft_ban_success [OF ok] d obtain u where
    u: "user = Some u" and gp: "getPlayerNumber (draftRoom s) (discordId u) = Some (currentPlayer d)"
    and s': "s' = s\<lparr>currentDraftState := Some d'\<rparr>"
    by (auto simp: m_def d'_def)
  have turn: "currentPlayer m = 1 \<or> currentPlayer m = 2"
    using getPlayerNumber_range [OF gp] by (simp add: m_def ban_mutation_frame)
  have phm: "phase m = Ban2" using ph by (simp add: m_def ban_mutation_frame)
  have cnt: "currentPhase2BanCount d' = currentPhase2BanCount m"
    by (simp add: d'_def advance_frame)
  have dn: "done2 (draftConfig s) d' = done2 (draftConfig s) m"
    using cnt by (rule done2_cong)
  have adv: "d' = (if done2 (draftConfig s) m 1 \<and> done2 (draftConfig s) m 2
       then m\<lparr>phase := Pick2, currentPlayer := 2\<rparr>
       else m\<lparr>currentPlayer := flip_skip (done2 (draftConfig s) m) (currentPlayer m)\<rparr>)"
    using phm advance_ban2_spec [OF turn, of "draftConfig s"] by (simp add: d'_def advance_def)
  have a: "actor s user = Some (currentPlayer d)" using u gp by (simp add: actor_def)
  have b: "draftConfig s' = draftConfig s" using s' by simp
  have c1: "currentPhase2BanCount d' = increment (currentPlayer d) (currentPhase2BanCount d)"
    using cnt ph by (simp add: m_def ban_mutation_counts)
  have c2: "if done2 (draftConfig s) d' 1 \<and> done2 (draftConfig s) d' 2
              then phase d' = Pick2 \<and> currentPlayer d' = 2
              else phase d' = Ban2
                \<and> currentPlayer d' = flip_skip (done2 (draftConfig s) d') (currentPlayer d)"
  proof (cases "done2 (draftConfig s) m 1 \<and> done2 (draftConfig s) m 2")
    case True
    have "d' = m\<lparr>phase := Pick2, currentPlayer := 2\<rparr>"
      by (subst adv) (use True in auto)
    then show ?thesis using True dn by simp
  next
    case False
    have "d' = m\<lparr>currentPlayer := flip_skip (done2 (draftConfig s) m) (currentPlayer m)\<rparr>"
      by (subst adv) (use False in auto)
    then have "phase d' = Ban2"
      and "currentPlayer d' = flip_skip (done2 (draftConfig s) m) (currentPlayer d)"
      using phm by (simp_all add: m_def ban_mutation_frame)
    then show ?thesis using False dn by simp
  qed
  from a b s' c1 c2 show ?thesis by simp
qed

lemma draft_start_success:
  assumes "draft_start s user now = (DraftStarted, s')"
  shows "draftConfig s' = draftConfig s \<and> draftRoom s' = draftRoom s
    \<and> (\<exists>d. currentDraftState s' = Some d \<and> phase d = Ban1 \<and> currentPlayer d = 1
          \<and> bans d = [] \<and> picks d = []
          \<and> currentPhase1BanCount d = \<lparr>player1 = 0, player2 = 0\<rparr>
          \<and> currentPhase2BanCount d = \<lparr>player1 = 0, player2 = 0\<rparr>
          \<and> currentPick1Count d = \<lparr>player1 = 0, player2 = 0\<rparr>
          \<and> currentPick2Count d = \<lparr>player1 = 0, player2 = 0\<rparr>
          \<and> balanceBansUsed d = 0)"
  using assms by (auto simp: draft_start_def split: option.splits if_splits)

lemmas turn_defs = done1_def done2_def need_def count_of_def increment_def flip_skip_def flip_def

text \<open>
  Claim C1. After a successful ban in phase ban1, with \<open>need\<close> and "done" as the
  specification words them and judged on the counts after the ban: if both players are
  done, the phase is pick1 and the turn is on player 1; otherwise the phase stays ban1
  and the turn flips, and flips once more if the player it flipped to is done. And under
  \<open>bansPhase1 = 1\<close>, \<open>balanceBans = 1\<close>, \<open>balanceBansPlayer = 1\<close>, the first three successful
  bans after a start are made by players 1, 2, 1 in this order; the phase is ban1 until
  the third and pick1, with the turn on player 1, after it.
\<close>

theorem ban1_turn:
  "(currentDraftState s = Some d \<and> phase d = Ban1
      \<and> draft_ban s user c = (DraftUpdated, s') \<longrightarrow>
      (\<exists>d'. currentDraftState s' = Some d'
         \<and> (if done1 (draftConfig s) d' 1 \<and> done1 (draftConfig s) d' 2
             then phase d' = Pick1 \<and> currentPlayer d' = 1
             else phase d' = Ban1
               \<and> currentPlayer d' = flip_skip (done1 (draftConfig s) d') (currentPlayer d))))
   \<and> (bansPhase1 (draftConfig s0) = 1 \<and> balanceBans (draftConfig s0) = 1
      \<and> balanceBansPlayer (draftConfig s0) = 1
      \<and> draft_start s0 u0 now = (DraftStarted, s1)
      \<and> draft_ban s1 u1 c1 = (DraftUpdated, s2)
      \<and> draft_ban s2 u2 c2 = (DraftUpdated, s3)
      \<and> draft_ban s3 u3 c3 = (DraftUpdated, s4) \<longrightarrow>
      actor s1 u1 = Some 1 \<and> actor s2 u2 = Some 2 \<and> actor s3 u3 = Some 1
     
      \<and> phase_of s1 = Some Ban1
      \<and> phase_of s2 = Some Ban1
      \<and> phase_of s3 = Some Ban1
     
      \<and> phase_of s4 = Some Pick1 \<and> turn_of s4 = Some 1)"
proof (rule conjI; rule impI)
  assume "currentDraftState s = Some d \<and> phase d = Ban1
      \<and> draft_ban s user c = (DraftUpdated, s')"
  then show "\<exists>d'. currentDraftState s' = Some d'
         \<and> (if done1 (draftConfig s) d' 1 \<and> done1 (draftConfig s) d' 2
             then phase d' = Pick1 \<and> currentPlayer d' = 1
             else phase d' = Ban1
               \<and> currentPlayer d' = flip_skip (done1 (draftConfig s) d') (currentPlayer d))"
    using ban1_step [of s user c s' d] by blast
next
  assume h: "bansPhase1 (draftConfig s0) = 1 \<and> balanceBans (draftConfig s0) = 1
      \<and> balanceBansPlayer (draftConfig s0) = 1
      \<and> draft_start s0 u0 now = (DraftStarted, s1)
      \<and> draft_ban s1 u1 c1 = (DraftUpdated, s2)
      \<and> draft_ban s2 u2 c2 = (DraftUpdated, s3)
      \<and> draft_ban s3 u3 c3 = (DraftUpdated, s4)"
  then have st: "draft_start s0 u0 now = (DraftStarted, s1)"
    and b1: "draft_ban s1 u1 c1 = (DraftUpdated, s2)"
    and b2: "draft_ban s2 u2 c2 = (DraftUpdated, s3)"
    and b3: "draft_ban s3 u3 c3 = (DraftUpdated, s4)"
    by simp_all
  from draft_start_success [OF st] obtain d1 where
    cfg1: "draftConfig s1 = draftConfig s0" and s1: "currentDraftState s1 = Some d1"
    and ph1: "phase d1 = Ban1" and t1: "currentPlayer d1 = 1"
    and n1: "currentPhase1BanCount d1 = \<lparr>player1 = 0, player2 = 0\<rparr>"
    by blast
  have cfg: "bansPhase1 (draftConfig s1) = 1" "balanceBans (draftConfig s1) = 1"
    "balanceBansPlayer (draftConfig s1) = 1"
    using h cfg1 by simp_all
  from ban1_step [OF b1 s1 ph1] obtain d2 where
    a1: "actor s1 u1 = Some 1" and cfg2: "draftConfig s2 = draftConfig s1"
    and s2: "currentDraftState s2 = Some d2"
    and n2: "currentPhase1BanCount d2 = \<lparr>player1 = 1, player2 = 0\<rparr>"
    and r2: "if done1 (draftConfig s1) d2 1 \<and> done1 (draftConfig s1) d2 2
              then phase d2 = Pick1 \<and> currentPlayer d2 = 1
              else phase d2 = Ban1
                \<and> currentPlayer d2 = flip_skip (done1 (draftConfig s1) d2) (currentPlayer d1)"
    using t1 n1 by (auto simp: increment_def)
  have ph2: "phase d2 = Ban1" and t2: "currentPlayer d2 = 2"
    using r2 n2 t1 cfg by (simp_all add: turn_defs)
  from ban1_step [OF b2 s2 ph2] obtain d3 where
    a2: "actor s2 u2 = Some 2" and cfg3: "draftConfig s3 = draftConfig s2"
    and s3: "currentDraftState s3 = Some d3"
    and n3: "currentPhase1BanCount d3 = \<lparr>player1 = 1, player2 = 1\<rparr>"
    and r3: "if done1 (draftConfig s2) d3 1 \<and> done1 (draftConfig s2) d3 2
              then phase d3 = Pick1 \<and> currentPlayer d3 = 1
              else phase d3 = Ban1
                \<and> currentPlayer d3 = flip_skip (done1 (draftConfig s2) d3) (currentPlayer d2)"
    using t2 n2 by (auto simp: increment_def)
  have ph3: "phase d3 = Ban1" and t3: "currentPlayer d3 = 1"
    using r3 n3 t2 cfg cfg2 by (simp_all add: turn_defs)
  from ban1_step [OF b3 s3 ph3] obtain d4 where
    a3: "actor s3 u3 = Some 1"
    and s4: "currentDraftState s4 = Some d4"
    and n4: "currentPhase1BanCount d4 = \<lparr>player1 = 2, player2 = 1\<rparr>"
    and r4: "if done1 (draftConfig s3) d4 1 \<and> done1 (draftConfig s3) d4 2
              then phase d4 = Pick1 \<and> currentPlayer d4 = 1
              else phase d4 = Ban1
                \<and> currentPlayer d4 = flip_skip (done1 (draftConfig s3) d4) (currentPlayer d3)"
    using t3 n3 by (auto simp: increment_def)
  have ph4: "phase d4 = Pick1" and t4: "currentPlayer d4 = 1"
    using r4 n4 t3 cfg cfg2 cfg3 by (simp_all add: turn_defs)
  show "actor s1 u1 = Some 1 \<and> actor s2 u2 = Some 2 \<and> actor s3 u3 = Some 1
     
      \<and> phase_of s1 = Some Ban1
      \<and> phase_of s2 = Some Ban1
      \<and> phase_of s3 = Some Ban1
     
      \<and> phase_of s4 = Some Pick1 \<and> turn_of s4 = Some 1"
    using a1 a2 a3 s1 s2 s3 s4 ph1 ph2 ph3 ph4 t4 by (simp add: phase_of_def turn_of_def)
qed

text \<open>The three bans of \<open>balance_draft\<close>.\<close>

theorem ban1_turn_witness:
  "(currentDraftState (reached_balance 1) = Some (the (currentDraftState (reached_balance 1))) \<and> phase (the (currentDraftState (reached_balance 1))) = Ban1
      \<and> draft_ban (reached_balance 1) (Some alice) ''a'' = (DraftUpdated, (reached_balance 2)))
   \<and> (bansPhase1 (draftConfig (reached_balance 0)) = 1 \<and> balanceBans (draftConfig (reached_balance 0)) = 1
      \<and> balanceBansPlayer (draftConfig (reached_balance 0)) = 1
      \<and> draft_start (reached_balance 0) (Some alice) 0 = (DraftStarted, (reached_balance 1))
      \<and> draft_ban (reached_balance 1) (Some alice) ''a'' = (DraftUpdated, (reached_balance 2))
      \<and> draft_ban (reached_balance 2) (Some bob) ''b'' = (DraftUpdated, (reached_balance 3))
      \<and> draft_ban (reached_balance 3) (Some alice) ''c'' = (DraftUpdated, (reached_balance 4)))
   \<and> ((\<exists>d'. currentDraftState (reached_balance 2) = Some d'
         \<and> (if done1 (draftConfig (reached_balance 1)) d' 1 \<and> done1 (draftConfig (reached_balance 1)) d' 2
             then phase d' = Pick1 \<and> currentPlayer d' = 1
             else phase d' = Ban1
               \<and> currentPlayer d' = flip_skip (done1 (draftConfig (reached_balance 1)) d') (currentPlayer (the (currentDraftState (reached_balance 1)))))))
   \<and> (actor (reached_balance 1) (Some alice) = Some 1
      \<and> actor (reached_balance 2) (Some bob) = Some 2
      \<and> actor (reached_balance 3) (Some alice) = Some 1
     
      \<and> phase_of (reached_balance 1) = Some Ban1
      \<and> phase_of (reached_balance 2) = Some Ban1
      \<and> phase_of (reached_balance 3) = Some Ban1
     
      \<and> phase_of (reached_balance 4) = Some Pick1 \<and> turn_of (reached_balance 4) = Some 1)"
proof -
  note inst = ban1_turn [of "reached_balance 1" "(the (currentDraftState (reached_balance 1)))" "Some alice" "''a''" "reached_balance 2" "reached_balance 0" "Some alice" "0" "reached_balance 1" "Some alice" "''a''" "reached_balance 2" "Some bob" "''b''" "reached_balance 3" "Some alice" "''c''" "reached_balance 4"]
  have hg: "currentDraftState (reached_balance 1) = Some (the (currentDraftState (reached_balance 1))) \<and> phase (the (currentDraftState (reached_balance 1))) = Ban1
      \<and> draft_ban (reached_balance 1) (Some alice) ''a'' = (DraftUpdated, (reached_balance 2))"
    by code_simp
  have hs: "bansPhase1 (draftConfig (reached_balance 0)) = 1 \<and> balanceBans (draftConfig (reached_balance 0)) = 1
      \<and> balanceBansPlayer (draftConfig (reached_balance 0)) = 1
      \<and> draft_start (reached_balance 0) (Some alice) 0 = (DraftStarted, (reached_balance 1))
      \<and> draft_ban (reached_balance 1) (Some alice) ''a'' = (DraftUpdated, (reached_balance 2))
      \<and> draft_ban (reached_balance 2) (Some bob) ''b'' = (DraftUpdated, (reached_balance 3))
      \<and> draft_ban (reached_balance 3) (Some alice) ''c'' = (DraftUpdated, (reached_balance 4))"
    by code_simp
  have cg: "(\<exists>d'. currentDraftState (reached_balance 2) = Some d'
         \<and> (if done1 (draftConfig (reached_balance 1)) d' 1 \<and> done1 (draftConfig (reached_balance 1)) d' 2
             then phase d' = Pick1 \<and> currentPlayer d' = 1
             else phase d' = Ban1
               \<and> currentPlayer d' = flip_skip (done1 (draftConfig (reached_balance 1)) d') (currentPlayer (the (currentDraftState (reached_balance 1))))))"
    by (rule mp [OF conjunct1 [OF inst] hg])
  have cs: "actor (reached_balance 1) (Some alice) = Some 1
      \<and> actor (reached_balance 2) (Some bob) = Some 2
      \<and> actor (reached_balance 3) (Some alice) = Some 1
     
      \<and> phase_of (reached_balance 1) = Some Ban1
      \<and> phase_of (reached_balance 2) = Some Ban1
      \<and> phase_of (reached_balance 3) = Some Ban1
     
      \<and> phase_of (reached_balance 4) = Some Pick1 \<and> turn_of (reached_balance 4) = Some 1"
    by (rule mp [OF conjunct2 [OF inst] hs])
  show ?thesis
    by (rule conjI [OF hg conjI [OF hs conjI [OF cg cs]]])
qed

text \<open>
  Claim C3. After a successful ban in phase ban2, with the quota \<open>bansPhase2\<close> for both
  players and "done" judged on the counts after the ban: if both players are done, the
  phase is pick2 and the turn is on player 2; otherwise the phase stays ban2 and the
  turn flips, and flips once more if the player it flipped to is done.
\<close>

theorem ban2_turn:
  "currentDraftState s = Some d \<and> phase d = Ban2
      \<and> draft_ban s user c = (DraftUpdated, s') \<longrightarrow>
      (\<exists>d'. currentDraftState s' = Some d'
         \<and> (if done2 (draftConfig s) d' 1 \<and> done2 (draftConfig s) d' 2
             then phase d' = Pick2 \<and> currentPlayer d' = 2
             else phase d' = Ban2
               \<and> currentPlayer d' = flip_skip (done2 (draftConfig s) d') (currentPlayer d)))"
  using ban2_step [of s user c s' d] by blast

text \<open>The first ban of phase ban2 in \<open>full_draft\<close>.\<close>

theorem ban2_turn_witness:
  "(currentDraftState (reached 9) = Some (the (currentDraftState (reached 9))) \<and> phase (the (currentDraftState (reached 9))) = Ban2
      \<and> draft_ban (reached 9) (Some alice) ''i'' = (DraftUpdated, (reached 10)))
   \<and> ((\<exists>d'. currentDraftState (reached 10) = Some d'
         \<and> (if done2 (draftConfig (reached 9)) d' 1 \<and> done2 (draftConfig (reached 9)) d' 2
             then phase d' = Pick2 \<and> currentPlayer d' = 2
             else phase d' = Ban2
               \<and> currentPlayer d' = flip_skip (done2 (draftConfig (reached 9)) d') (currentPlayer (the (currentDraftState (reached 9)))))))"
proof -
  note inst = ban2_turn [of "reached 9" "(the (currentDraftState (reached 9)))" "Some alice" "''i''" "reached 10"]
  have h: "currentDraftState (reached 9) = Some (the (currentDraftState (reached 9))) \<and> phase (the (currentDraftState (reached 9))) = Ban2
      \<and> draft_ban (reached 9) (Some alice) ''i'' = (DraftUpdated, (reached 10))"
    by code_simp
  have c: "(\<exists>d'. currentDraftState (reached 10) = Some d'
         \<and> (if done2 (draftConfig (reached 9)) d' 1 \<and> done2 (draftConfig (reached 9)) d' 2
             then phase d' = Pick2 \<and> currentPlayer d' = 2
             else phase d' = Ban2
               \<and> currentPlayer d' = flip_skip (done2 (draftConfig (reached 9)) d') (currentPlayer (the (currentDraftState (reached 9))))))"
    by (rule mp [OF inst h])
  show ?thesis
    by (rule conjI [OF h c])
qed

section \<open>The turn after a pick\<close>

lemma advance_pick1_spec:
  "advance_pick1 m =
     (if quota_met (currentPick1Count m) then m\<lparr>phase := Ban2, currentPlayer := 1\<rparr>
      else if 0 \<le> total (currentPick1Count m) \<and> total (currentPick1Count m) < 6
      then m\<lparr>currentPlayer := pick1_table ! nat (total (currentPick1Count m))\<rparr>
      else m)"
proof -
  consider "total (currentPick1Count m) = 0" | "total (currentPick1Count m) = 1"
    | "total (currentPick1Count m) = 2" | "total (currentPick1Count m) = 3"
    | "total (currentPick1Count m) = 4" | "total (currentPick1Count m) = 5"
    | "total (currentPick1Count m) < 0 \<or> total (currentPick1Count m) \<ge> 6"
    by linarith
  then show ?thesis
    by cases (auto simp: advance_pick1_def quota_met_def total_def pick1_table_def Let_def)
qed

lemma advance_pick2_spec:
  "advance_pick2 m =
     (if quota_met (currentPick2Count m) then m\<lparr>phase := Complete\<rparr>
      else if 0 \<le> total (currentPick2Count m) \<and> total (currentPick2Count m) < 6
      then m\<lparr>currentPlayer := pick2_table ! nat (total (currentPick2Count m))\<rparr>
      else m)"
proof -
  consider "total (currentPick2Count m) = 0" | "total (currentPick2Count m) = 1"
    | "total (currentPick2Count m) = 2" | "total (currentPick2Count m) = 3"
    | "total (currentPick2Count m) = 4" | "total (currentPick2Count m) = 5"
    | "total (currentPick2Count m) < 0 \<or> total (currentPick2Count m) \<ge> 6"
    by linarith
  then show ?thesis
    by cases (auto simp: advance_pick2_def quota_met_def total_def pick2_table_def Let_def)
qed

lemma pick1_step:
  assumes ok: "draft_pick s user c = (DraftUpdated, s')"
    and d: "currentDraftState s = Some d" and ph: "phase d = Pick1"
  shows "actor s user = Some (currentPlayer d) \<and> draftConfig s' = draftConfig s
    \<and> (\<exists>d'. currentDraftState s' = Some d'
          \<and> currentPick1Count d' = increment (currentPlayer d) (currentPick1Count d)
          \<and> (if quota_met (currentPick1Count d')
              then phase d' = Ban2 \<and> currentPlayer d' = 1
              else phase d' = Pick1
                \<and> (if 0 \<le> total (currentPick1Count d') \<and> total (currentPick1Count d') < 6
                    then currentPlayer d' = pick1_table ! nat (total (currentPick1Count d'))
                    else currentPlayer d' = currentPlayer d)))"
proof -
  define m where "m = pick_mutation d (currentPlayer d) c"
  define d' where "d' = advance (draftConfig s) m"
  from draft_pick_success [OF ok] d obtain u where
    u: "user = Some u" and gp: "getPlayerNumber (draftRoom s) (discordId u) = Some (currentPlayer d)"
    and s': "s' = s\<lparr>currentDraftState := Some d'\<rparr>"
    by (auto simp: m_def d'_def)
  have phm: "phase m = Pick1" and tm: "currentPlayer m = currentPlayer d"
    using ph by (simp_all add: m_def pick_mutation_frame)
  have cnt: "currentPick1Count d' = currentPick1Count m"
    by (simp add: d'_def advance_frame)
  have adv: "d' = advance_pick1 m"
    using phm by (simp add: d'_def advance_def)
  have a: "actor s user = Some (currentPlayer d)" using u gp by (simp add: actor_def)
  have b: "draftConfig s' = draftConfig s" using s' by simp
  have c1: "currentPick1Count d' = increment (currentPlayer d) (currentPick1Count d)"
    using cnt ph by (simp add: m_def pick_mutation_counts)
  have c2: "if quota_met (currentPick1Count d')
              then phase d' = Ban2 \<and> currentPlayer d' = 1
              else phase d' = Pick1
                \<and> (if 0 \<le> total (currentPick1Count d') \<and> total (currentPick1Count d') < 6
                    then currentPlayer d' = pick1_table ! nat (total (currentPick1Count d'))
                    else currentPlayer d' = currentPlayer d)"
    unfolding cnt unfolding adv
    by (auto simp: advance_pick1_spec phm tm)
  from a b s' c1 c2 show ?thesis by simp
qed

lemma pick2_step:
  assumes ok: "draft_pick s user c = (DraftUpdated, s')"
    and d: "currentDraftState s = Some d" and ph: "phase d = Pick2"
  shows "actor s user = Some (currentPlayer d) \<and> draftConfig s' = draftConfig s
    \<and> (\<exists>d'. currentDraftState s' = Some d'
          \<and> currentPick2Count d' = increment (currentPlayer d) (currentPick2Count d)
          \<and> (if quota_met (currentPick2Count d')
              then phase d' = Complete
              else phase d' = Pick2
                \<and> (if 0 \<le> total (currentPick2Count d') \<and> total (currentPick2Count d') < 6
                    then currentPlayer d' = pick2_table ! nat (total (currentPick2Count d'))
                    else currentPlayer d' = currentPlayer d)))"
proof -
  define m where "m = pick_mutation d (currentPlayer d) c"
  define d' where "d' = advance (draftConfig s) m"
  from draft_pick_success [OF ok] d obtain u where
    u: "user = Some u" and gp: "getPlayerNumber (draftRoom s) (discordId u) = Some (currentPlayer d)"
    and s': "s' = s\<lparr>currentDraftState := Some d'\<rparr>"
    by (auto simp: m_def d'_def)
  have phm: "phase m = Pick2" and tm: "currentPlayer m = currentPlayer d"
    using ph by (simp_all add: m_def pick_mutation_frame)
  have cnt: "currentPick2Count d' = currentPick2Count m"
    by (simp add: d'_def advance_frame)
  have adv: "d' = advance_pick2 m"
    using phm by (simp add: d'_def advance_def)
  have a: "actor s user = Some (currentPlayer d)" using u gp by (simp add: actor_def)
  have b: "draftConfig s' = draftConfig s" using s' by simp
  have c1: "currentPick2Count d' = increment (currentPlayer d) (currentPick2Count d)"
    using cnt ph by (simp add: m_def pick_mutation_counts)
  have c2: "if quota_met (currentPick2Count d')
              then phase d' = Complete
              else phase d' = Pick2
                \<and> (if 0 \<le> total (currentPick2Count d') \<and> total (currentPick2Count d') < 6
                    then currentPlayer d' = pick2_table ! nat (total (currentPick2Count d'))
                    else currentPlayer d' = currentPlayer d)"
    unfolding cnt unfolding adv
    by (auto simp: advance_pick2_spec phm tm)
  from a b s' c1 c2 show ?thesis by simp
qed

text \<open>
  Claim C2. After a successful pick in phase pick1: if both counts of the phase have
  reached 3, the phase is ban2 and the turn is on player 1; otherwise the phase stays
  pick1 and the turn is the entry of the table 1, 2, 2, 1, 1, 2 at the sum of the two
  counts (for a sum outside the table the turn stays). And six successful picks from
  empty counts, with the turn on player 1 as the end of ban1 leaves it, are made by
  players 1, 2, 2, 1, 1, 2 in this order, whatever the items; the sixth ends the phase.
\<close>

theorem pick1_turn:
  "(currentDraftState s = Some d \<and> phase d = Pick1
     
      \<and> draft_pick s user c = (DraftUpdated, s') \<longrightarrow>
      (\<exists>d'. currentDraftState s' = Some d'
         \<and> (if quota_met (currentPick1Count d') then phase d' = Ban2 \<and> currentPlayer d' = 1
             else phase d' = Pick1
               \<and> (if 0 \<le> total (currentPick1Count d') \<and> total (currentPick1Count d') < 6
                   then currentPlayer d' = pick1_table ! nat (total (currentPick1Count d'))
                   else currentPlayer d' = currentPlayer d))))
   \<and> (currentDraftState s0 = Some d0 \<and> phase d0 = Pick1 \<and> currentPlayer d0 = 1
      \<and> currentPick1Count d0 = \<lparr>player1 = 0, player2 = 0\<rparr>
     
      \<and> draft_pick s0 u1 c1 = (DraftUpdated, s1)
      \<and> draft_pick s1 u2 c2 = (DraftUpdated, s2)
      \<and> draft_pick s2 u3 c3 = (DraftUpdated, s3)
      \<and> draft_pick s3 u4 c4 = (DraftUpdated, s4)
      \<and> draft_pick s4 u5 c5 = (DraftUpdated, s5)
      \<and> draft_pick s5 u6 c6 = (DraftUpdated, s6) \<longrightarrow>
      [actor s0 u1, actor s1 u2, actor s2 u3,
       actor s3 u4,
       actor s4 u5,
       actor s5 u6] = map Some pick1_table
     
      \<and> phase_of s1 = Some Pick1
      \<and> phase_of s2 = Some Pick1
      \<and> phase_of s3 = Some Pick1
      \<and> phase_of s4 = Some Pick1
      \<and> phase_of s5 = Some Pick1
     
      \<and> phase_of s6 = Some Ban2 \<and> turn_of s6 = Some 1)"
proof (rule conjI; rule impI)
  assume "currentDraftState s = Some d \<and> phase d = Pick1
     
      \<and> draft_pick s user c = (DraftUpdated, s')"
  then show "\<exists>d'. currentDraftState s' = Some d'
         \<and> (if quota_met (currentPick1Count d') then phase d' = Ban2 \<and> currentPlayer d' = 1
             else phase d' = Pick1
               \<and> (if 0 \<le> total (currentPick1Count d') \<and> total (currentPick1Count d') < 6
                   then currentPlayer d' = pick1_table ! nat (total (currentPick1Count d'))
                   else currentPlayer d' = currentPlayer d))"
    using pick1_step [of s user c s' d] by blast
next
  assume h: "currentDraftState s0 = Some d0 \<and> phase d0 = Pick1 \<and> currentPlayer d0 = 1
      \<and> currentPick1Count d0 = \<lparr>player1 = 0, player2 = 0\<rparr>
     
      \<and> draft_pick s0 u1 c1 = (DraftUpdated, s1)
      \<and> draft_pick s1 u2 c2 = (DraftUpdated, s2)
      \<and> draft_pick s2 u3 c3 = (DraftUpdated, s3)
      \<and> draft_pick s3 u4 c4 = (DraftUpdated, s4)
      \<and> draft_pick s4 u5 c5 = (DraftUpdated, s5)
      \<and> draft_pick s5 u6 c6 = (DraftUpdated, s6)"
  then have s0: "currentDraftState s0 = Some d0" and ph0: "phase d0 = Pick1"
    and t0: "currentPlayer d0 = 1"
    and n0: "currentPick1Count d0 = \<lparr>player1 = 0, player2 = 0\<rparr>"
    and p1: "draft_pick s0 u1 c1 = (DraftUpdated, s1)"
    and p2: "draft_pick s1 u2 c2 = (DraftUpdated, s2)"
    and p3: "draft_pick s2 u3 c3 = (DraftUpdated, s3)"
    and p4: "draft_pick s3 u4 c4 = (DraftUpdated, s4)"
    and p5: "draft_pick s4 u5 c5 = (DraftUpdated, s5)"
    and p6: "draft_pick s5 u6 c6 = (DraftUpdated, s6)"
    by simp_all
  from pick1_step [OF p1 s0 ph0] obtain d1 where
    a1: "actor s0 u1 = Some 1" and s1: "currentDraftState s1 = Some d1"
    and n1: "currentPick1Count d1 = \<lparr>player1 = 1, player2 = 0\<rparr>"
    and r1: "if quota_met (currentPick1Count d1) then phase d1 = Ban2 \<and> currentPlayer d1 = 1
       else phase d1 = Pick1
         \<and> (if 0 \<le> total (currentPick1Count d1) \<and> total (currentPick1Count d1) < 6
             then currentPlayer d1 = pick1_table ! nat (total (currentPick1Count d1))
             else currentPlayer d1 = currentPlayer d0)"
    using t0 n0 by (auto simp: increment_def)
  have ph1: "phase d1 = Pick1" and t1: "currentPlayer d1 = 2"
    using r1 n1 by (simp_all add: quota_met_def total_def pick1_table_def)
  from pick1_step [OF p2 s1 ph1] obtain d2 where
    a2: "actor s1 u2 = Some 2" and s2: "currentDraftState s2 = Some d2"
    and n2: "currentPick1Count d2 = \<lparr>player1 = 1, player2 = 1\<rparr>"
    and r2: "if quota_met (currentPick1Count d2) then phase d2 = Ban2 \<and> currentPlayer d2 = 1
       else phase d2 = Pick1
         \<and> (if 0 \<le> total (currentPick1Count d2) \<and> total (currentPick1Count d2) < 6
             then currentPlayer d2 = pick1_table ! nat (total (currentPick1Count d2))
             else currentPlayer d2 = currentPlayer d1)"
    using t1 n1 by (auto simp: increment_def)
  have ph2: "phase d2 = Pick1" and t2: "currentPlayer d2 = 2"
    using r2 n2 by (simp_all add: quota_met_def total_def pick1_table_def)
  from pick1_step [OF p3 s2 ph2] obtain d3 where
    a3: "actor s2 u3 = Some 2" and s3: "currentDraftState s3 = Some d3"
    and n3: "currentPick1Count d3 = \<lparr>player1 = 1, player2 = 2\<rparr>"
    and r3: "if quota_met (currentPick1Count d3) then phase d3 = Ban2 \<and> currentPlayer d3 = 1
       else phase d3 = Pick1
         \<and> (if 0 \<le> total (currentPick1Count d3) \<and> total (currentPick1Count d3) < 6
             then currentPlayer d3 = pick1_table ! nat (total (currentPick1Count d3))
             else currentPlayer d3 = currentPlayer d2)"
    using t2 n2 by (auto simp: increment_def)
  have ph3: "phase d3 = Pick1" and t3: "currentPlayer d3 = 1"
    using r3 n3 by (simp_all add: quota_met_def total_def pick1_table_def)
  from pick1_step [OF p4 s3 ph3] obtain d4 where
    a4: "actor s3 u4 = Some 1" and s4: "currentDraftState s4 = Some d4"
    and n4: "currentPick1Count d4 = \<lparr>player1 = 2, player2 = 2\<rparr>"
    and r4: "if quota_met (currentPick1Count d4) then phase d4 = Ban2 \<and> currentPlayer d4 = 1
       else phase d4 = Pick1
         \<and> (if 0 \<le> total (currentPick1Count d4) \<and> total (currentPick1Count d4) < 6
             then currentPlayer d4 = pick1_table ! nat (total (currentPick1Count d4))
             else currentPlayer d4 = currentPlayer d3)"
    using t3 n3 by (auto simp: increment_def)
  have ph4: "phase d4 = Pick1" and t4: "currentPlayer d4 = 1"
    using r4 n4 by (simp_all add: quota_met_def total_def pick1_table_def)
  from pick1_step [OF p5 s4 ph4] obtain d5 where
    a5: "actor s4 u5 = Some 1" and s5: "currentDraftState s5 = Some d5"
    and n5: "currentPick1Count d5 = \<lparr>player1 = 3, player2 = 2\<rparr>"
    and r5: "if quota_met (currentPick1Count d5) then phase d5 = Ban2 \<and> currentPlayer d5 = 1
       else phase d5 = Pick1
         \<and> (if 0 \<le> total (currentPick1Count d5) \<and> total (currentPick1Count d5) < 6
             then currentPlayer d5 = pick1_table ! nat (total (currentPick1Count d5))
             else currentPlayer d5 = currentPlayer d4)"
    using t4 n4 by (auto simp: increment_def)
  have ph5: "phase d5 = Pick1" and t5: "currentPlayer d5 = 2"
    using r5 n5 by (simp_all add: quota_met_def total_def pick1_table_def)
  from pick1_step [OF p6 s5 ph5] obtain d6 where
    a6: "actor s5 u6 = Some 2" and s6: "currentDraftState s6 = Some d6"
    and n6: "currentPick1Count d6 = \<lparr>player1 = 3, player2 = 3\<rparr>"
    and r6: "if quota_met (currentPick1Count d6) then phase d6 = Ban2 \<and> currentPlayer d6 = 1
       else phase d6 = Pick1
         \<and> (if 0 \<le> total (currentPick1Count d6) \<and> total (currentPick1Count d6) < 6
             then currentPlayer d6 = pick1_table ! nat (total (currentPick1Count d6))
             else currentPlayer d6 = currentPlayer d5)"
    using t5 n5 by (auto simp: increment_def)
  have e6: "phase d6 = Ban2 \<and> currentPlayer d6 = 1"
    using r6 n6 by (simp add: quota_met_def)
  show "[actor s0 u1, actor s1 u2, actor s2 u3,
       actor s3 u4,
       actor s4 u5,
       actor s5 u6] = map Some pick1_table
     
      \<and> phase_of s1 = Some Pick1
      \<and> phase_of s2 = Some Pick1
      \<and> phase_of s3 = Some Pick1
      \<and> phase_of s4 = Some Pick1
      \<and> phase_of s5 = Some Pick1
     
      \<and> phase_of s6 = Some Ban2 \<and> turn_of s6 = Some 1"
    using a1 a2 a3 a4 a5 a6 s1 s2 s3 s4 s5 s6 ph1 ph2 ph3 ph4 ph5 e6
    by (simp add: phase_of_def turn_of_def pick1_table_def)
qed

text \<open>The six picks of phase pick1 in \<open>full_draft\<close>.\<close>

theorem pick1_turn_witness:
  "(currentDraftState (reached 3) = Some (the (currentDraftState (reached 3))) \<and> phase (the (currentDraftState (reached 3))) = Pick1
     
      \<and> draft_pick (reached 3) (Some alice) ''c'' = (DraftUpdated, (reached 4)))
   \<and> (currentDraftState (reached 3) = Some (the (currentDraftState (reached 3))) \<and> phase (the (currentDraftState (reached 3))) = Pick1 \<and> currentPlayer (the (currentDraftState (reached 3))) = 1
      \<and> currentPick1Count (the (currentDraftState (reached 3))) = \<lparr>player1 = 0, player2 = 0\<rparr>
     
      \<and> draft_pick (reached 3) (Some alice) ''c'' = (DraftUpdated, (reached 4))
      \<and> draft_pick (reached 4) (Some bob) ''d'' = (DraftUpdated, (reached 5))
      \<and> draft_pick (reached 5) (Some bob) ''e'' = (DraftUpdated, (reached 6))
      \<and> draft_pick (reached 6) (Some alice) ''f'' = (DraftUpdated, (reached 7))
      \<and> draft_pick (reached 7) (Some alice) ''g'' = (DraftUpdated, (reached 8))
      \<and> draft_pick (reached 8) (Some bob) ''h'' = (DraftUpdated, (reached 9)))
   \<and> ((\<exists>d'. currentDraftState (reached 4) = Some d'
         \<and> (if quota_met (currentPick1Count d') then phase d' = Ban2 \<and> currentPlayer d' = 1
             else phase d' = Pick1
               \<and> (if 0 \<le> total (currentPick1Count d') \<and> total (currentPick1Count d') < 6
                   then currentPlayer d' = pick1_table ! nat (total (currentPick1Count d'))
                   else currentPlayer d' = currentPlayer (the (currentDraftState (reached 3)))))))
   \<and> ([actor (reached 3) (Some alice),
       actor (reached 4) (Some bob),
       actor (reached 5) (Some bob),
       actor (reached 6) (Some alice),
       actor (reached 7) (Some alice),
       actor (reached 8) (Some bob)] = map Some pick1_table
     
      \<and> phase_of (reached 4) = Some Pick1
      \<and> phase_of (reached 5) = Some Pick1
      \<and> phase_of (reached 6) = Some Pick1
      \<and> phase_of (reached 7) = Some Pick1
      \<and> phase_of (reached 8) = Some Pick1
     
      \<and> phase_of (reached 9) = Some Ban2 \<and> turn_of (reached 9) = Some 1)"
proof -
  note inst = pick1_turn [of "reached 3" "(the (currentDraftState (reached 3)))" "Some alice" "''c''" "reached 4" "reached 3" "(the (currentDraftState (reached 3)))" "Some alice" "''c''" "reached 4" "Some bob" "''d''" "reached 5" "Some bob" "''e''" "reached 6" "Some alice" "''f''" "reached 7" "Some alice" "''g''" "reached 8" "Some bob" "''h''" "reached 9"]
  have hg: "currentDraftState (reached 3) = Some (the (currentDraftState (reached 3))) \<and> phase (the (currentDraftState (reached 3))) = Pick1
     
      \<and> draft_pick (reached 3) (Some alice) ''c'' = (DraftUpdated, (reached 4))"
    by code_simp
  have hs: "currentDraftState (reached 3) = Some (the (currentDraftState (reached 3))) \<and> phase (the (currentDraftState (reached 3))) = Pick1 \<and> currentPlayer (the (currentDraftState (reached 3))) = 1
      \<and> currentPick1Count (the (currentDraftState (reached 3))) = \<lparr>player1 = 0, player2 = 0\<rparr>
     
      \<and> draft_pick (reached 3) (Some alice) ''c'' = (DraftUpdated, (reached 4))
      \<and> draft_pick (reached 4) (Some bob) ''d'' = (DraftUpdated, (reached 5))
      \<and> draft_pick (reached 5) (Some bob) ''e'' = (DraftUpdated, (reached 6))
      \<and> draft_pick (reached 6) (Some alice) ''f'' = (DraftUpdated, (reached 7))
      \<and> draft_pick (reached 7) (Some alice) ''g'' = (DraftUpdated, (reached 8))
      \<and> draft_pick (reached 8) (Some bob) ''h'' = (DraftUpdated, (reached 9))"
    by code_simp
  have cg: "(\<exists>d'. currentDraftState (reached 4) = Some d'
         \<and> (if quota_met (currentPick1Count d') then phase d' = Ban2 \<and> currentPlayer d' = 1
             else phase d' = Pick1
               \<and> (if 0 \<le> total (currentPick1Count d') \<and> total (currentPick1Count d') < 6
                   then currentPlayer d' = pick1_table ! nat (total (currentPick1Count d'))
                   else currentPlayer d' = currentPlayer (the (currentDraftState (reached 3))))))"
    by (rule mp [OF conjunct1 [OF inst] hg])
  have cs: "[actor (reached 3) (Some alice),
       actor (reached 4) (Some bob),
       actor (reached 5) (Some bob),
       actor (reached 6) (Some alice),
       actor (reached 7) (Some alice),
       actor (reached 8) (Some bob)] = map Some pick1_table
     
      \<and> phase_of (reached 4) = Some Pick1
      \<and> phase_of (reached 5) = Some Pick1
      \<and> phase_of (reached 6) = Some Pick1
      \<and> phase_of (reached 7) = Some Pick1
      \<and> phase_of (reached 8) = Some Pick1
     
      \<and> phase_of (reached 9) = Some Ban2 \<and> turn_of (reached 9) = Some 1"
    by (rule mp [OF conjunct2 [OF inst] hs])
  show ?thesis
    by (rule conjI [OF hg conjI [OF hs conjI [OF cg cs]]])
qed

text \<open>
  Claim C4. After a successful pick in phase pick2: if both counts of the phase have
  reached 3, the phase is complete; otherwise the phase stays pick2 and the turn is the
  entry of the mirrored table 2, 1, 1, 2, 2, 1 at the sum of the two counts (for a sum
  outside the table the turn stays). And six successful picks from empty counts, with
  the turn on player 2 as the end of ban2 leaves it, are made by players 2, 1, 1, 2, 2, 1
  in this order; the sixth makes the phase complete.
\<close>

theorem pick2_turn:
  "(currentDraftState s = Some d \<and> phase d = Pick2
     
      \<and> draft_pick s user c = (DraftUpdated, s') \<longrightarrow>
      (\<exists>d'. currentDraftState s' = Some d'
         \<and> (if quota_met (currentPick2Count d') then phase d' = Complete
             else phase d' = Pick2
               \<and> (if 0 \<le> total (currentPick2Count d') \<and> total (currentPick2Count d') < 6
                   then currentPlayer d' = pick2_table ! nat (total (currentPick2Count d'))
                   else currentPlayer d' = currentPlayer d))))
   \<and> (currentDraftState s0 = Some d0 \<and> phase d0 = Pick2 \<and> currentPlayer d0 = 2
      \<and> currentPick2Count d0 = \<lparr>player1 = 0, player2 = 0\<rparr>
     
      \<and> draft_pick s0 u1 c1 = (DraftUpdated, s1)
      \<and> draft_pick s1 u2 c2 = (DraftUpdated, s2)
      \<and> draft_pick s2 u3 c3 = (DraftUpdated, s3)
      \<and> draft_pick s3 u4 c4 = (DraftUpdated, s4)
      \<and> draft_pick s4 u5 c5 = (DraftUpdated, s5)
      \<and> draft_pick s5 u6 c6 = (DraftUpdated, s6) \<longrightarrow>
      [actor s0 u1, actor s1 u2, actor s2 u3,
       actor s3 u4,
       actor s4 u5,
       actor s5 u6] = map Some pick2_table
     
      \<and> phase_of s1 = Some Pick2
      \<and> phase_of s2 = Some Pick2
      \<and> phase_of s3 = Some Pick2
      \<and> phase_of s4 = Some Pick2
      \<and> phase_of s5 = Some Pick2
     
      \<and> phase_of s6 = Some Complete)"
proof (rule conjI; rule impI)
  assume "currentDraftState s = Some d \<and> phase d = Pick2
     
      \<and> draft_pick s user c = (DraftUpdated, s')"
  then show "\<exists>d'. currentDraftState s' = Some d'
         \<and> (if quota_met (currentPick2Count d') then phase d' = Complete
             else phase d' = Pick2
               \<and> (if 0 \<le> total (currentPick2Count d') \<and> total (currentPick2Count d') < 6
                   then currentPlayer d' = pick2_table ! nat (total (currentPick2Count d'))
                   else currentPlayer d' = currentPlayer d))"
    using pick2_step [of s user c s' d] by blast
next
  assume h: "currentDraftState s0 = Some d0 \<and> phase d0 = Pick2 \<and> currentPlayer d0 = 2
      \<and> currentPick2Count d0 = \<lparr>player1 = 0, player2 = 0\<rparr>
     
      \<and> draft_pick s0 u1 c1 = (DraftUpdated, s1)
      \<and> draft_pick s1 u2 c2 = (DraftUpdated, s2)
      \<and> draft_pick s2 u3 c3 = (DraftUpdated, s3)
      \<and> draft_pick s3 u4 c4 = (DraftUpdated, s4)
      \<and> draft_pick s4 u5 c5 = (DraftUpdated, s5)
      \<and> draft_pick s5 u6 c6 = (DraftUpdated, s6)"
  then have s0: "currentDraftState s0 = Some d0" and ph0: "phase d0 = Pick2"
    and t0: "currentPlayer d0 = 2"
    and n0: "currentPick2Count d0 = \<lparr>player1 = 0, player2 = 0\<rparr>"
    and p1: "draft_pick s0 u1 c1 = (DraftUpdated, s1)"
    and p2: "draft_pick s1 u2 c2 = (DraftUpdated, s2)"
    and p3: "draft_pick s2 u3 c3 = (DraftUpdated, s3)"
    and p4: "draft_pick s3 u4 c4 = (DraftUpdated, s4)"
    and p5: "draft_pick s4 u5 c5 = (DraftUpdated, s5)"
    and p6: "draft_pick s5 u6 c6 = (DraftUpdated, s6)"
    by simp_all
  from pick2_step [OF p1 s0 ph0] obtain d1 where
    a1: "actor s0 u1 = Some 2" and s1: "currentDraftState s1 = Some d1"
    and n1: "currentPick2Count d1 = \<lparr>player1 = 0, player2 = 1\<rparr>"
    and r1: "if quota_met (currentPick2Count d1) then phase d1 = Complete
       else phase d1 = Pick2
         \<and> (if 0 \<le> total (currentPick2Count d1) \<and> total (currentPick2Count d1) < 6
             then currentPlayer d1 = pick2_table ! nat (total (currentPick2Count d1))
             else currentPlayer d1 = currentPlayer d0)"
    using t0 n0 by (auto simp: increment_def)
  have ph1: "phase d1 = Pick2" and t1: "currentPlayer d1 = 1"
    using r1 n1 by (simp_all add: quota_met_def total_def pick2_table_def)
  from pick2_step [OF p2 s1 ph1] obtain d2 where
    a2: "actor s1 u2 = Some 1" and s2: "currentDraftState s2 = Some d2"
    and n2: "currentPick2Count d2 = \<lparr>player1 = 1, player2 = 1\<rparr>"
    and r2: "if quota_met (currentPick2Count d2) then phase d2 = Complete
       else phase d2 = Pick2
         \<and> (if 0 \<le> total (currentPick2Count d2) \<and> total (currentPick2Count d2) < 6
             then currentPlayer d2 = pick2_table ! nat (total (currentPick2Count d2))
             else currentPlayer d2 = currentPlayer d1)"
    using t1 n1 by (auto simp: increment_def)
  have ph2: "phase d2 = Pick2" and t2: "currentPlayer d2 = 1"
    using r2 n2 by (simp_all add: quota_met_def total_def pick2_table_def)
  from pick2_step [OF p3 s2 ph2] obtain d3 where
    a3: "actor s2 u3 = Some 1" and s3: "currentDraftState s3 = Some d3"
    and n3: "currentPick2Count d3 = \<lparr>player1 = 2, player2 = 1\<rparr>"
    and r3: "if quota_met (currentPick2Count d3) then phase d3 = Complete
       else phase d3 = Pick2
         \<and> (if 0 \<le> total (currentPick2Count d3) \<and> total (currentPick2Count d3) < 6
             then currentPlayer d3 = pick2_table ! nat (total (currentPick2Count d3))
             else currentPlayer d3 = currentPlayer d2)"
    using t2 n2 by (auto simp: increment_def)
  have ph3: "phase d3 = Pick2" and t3: "currentPlayer d3 = 2"
    using r3 n3 by (simp_all add: quota_met_def total_def pick2_table_def)
  from pick2_step [OF p4 s3 ph3] obtain d4 where
    a4: "actor s3 u4 = Some 2" and s4: "currentDraftState s4 = Some d4"
    and n4: "currentPick2Count d4 = \<lparr>player1 = 2, player2 = 2\<rparr>"
    and r4: "if quota_met (currentPick2Count d4) then phase d4 = Complete
       else phase d4 = Pick2
         \<and> (if 0 \<le> total (currentPick2Count d4) \<and> total (currentPick2Count d4) < 6
             then currentPlayer d4 = pick2_table ! nat (total (currentPick2Count d4))
             else currentPlayer d4 = currentPlayer d3)"
    using t3 n3 by (auto simp: increment_def)
  have ph4: "phase d4 = Pick2" and t4: "currentPlayer d4 = 2"
    using r4 n4 by (simp_all add: quota_met_def total_def pick2_table_def)
  from pick2_step [OF p5 s4 ph4] obtain d5 where
    a5: "actor s4 u5 = Some 2" and s5: "currentDraftState s5 = Some d5"
    and n5: "currentPick2Count d5 = \<lparr>player1 = 2, player2 = 3\<rparr>"
    and r5: "if quota_met (currentPick2Count d5) then phase d5 = Complete
       else phase d5 = Pick2
         \<and> (if 0 \<le> total (currentPick2Count d5) \<and> total (currentPick2Count d5) < 6
             then currentPlayer d5 = pick2_table ! nat (total (currentPick2Count d5))
             else currentPlayer d5 = currentPlayer d4)"
    using t4 n4 by (auto simp: increment_def)
  have ph5: "phase d5 = Pick2" and t5: "currentPlayer d5 = 1"
    using r5 n5 by (simp_all add: quota_met_def total_def pick2_table_def)
  from pick2_step [OF p6 s5 ph5] obtain d6 where
    a6: "actor s5 u6 = Some 1" and s6: "currentDraftState s6 = Some d6"
    and n6: "currentPick2Count d6 = \<lparr>player1 = 3, player2 = 3\<rparr>"
    and r6: "if quota_met (currentPick2Count d6) then phase d6 = Complete
       else phase d6 = Pick2
         \<and> (if 0 \<le> total (currentPick2Count d6) \<and> total (currentPick2Count d6) < 6
             then currentPlayer d6 = pick2_table ! nat (total (currentPick2Count d6))
             else currentPlayer d6 = currentPlayer d5)"
    using t5 n5 by (auto simp: increment_def)
  have e6: "phase d6 = Complete"
    using r6 n6 by (simp add: quota_met_def)
  show "[actor s0 u1, actor s1 u2, actor s2 u3,
       actor s3 u4,
       actor s4 u5,
       actor s5 u6] = map Some pick2_table
     
      \<and> phase_of s1 = Some Pick2
      \<and> phase_of s2 = Some Pick2
      \<and> phase_of s3 = Some Pick2
      \<and> phase_of s4 = Some Pick2
      \<and> phase_of s5 = Some Pick2
     
      \<and> phase_of s6 = Some Complete"
    using a1 a2 a3 a4 a5 a6 s1 s2 s3 s4 s5 s6 ph1 ph2 ph3 ph4 ph5 e6
    by (simp add: phase_of_def turn_of_def pick2_table_def)
qed

text \<open>The six picks of phase pick2 in \<open>full_draft\<close>.\<close>

theorem pick2_turn_witness:
  "(currentDraftState (reached 11) = Some (the (currentDraftState (reached 11))) \<and> phase (the (currentDraftState (reached 11))) = Pick2
     
      \<and> draft_pick (reached 11) (Some bob) ''k'' = (DraftUpdated, (reached 12)))
   \<and> (currentDraftState (reached 11) = Some (the (currentDraftState (reached 11))) \<and> phase (the (currentDraftState (reached 11))) = Pick2 \<and> currentPlayer (the (currentDraftState (reached 11))) = 2
      \<and> currentPick2Count (the (currentDraftState (reached 11))) = \<lparr>player1 = 0, player2 = 0\<rparr>
     
      \<and> draft_pick (reached 11) (Some bob) ''k'' = (DraftUpdated, (reached 12))
      \<and> draft_pick (reached 12) (Some alice) ''l'' = (DraftUpdated, (reached 13))
      \<and> draft_pick (reached 13) (Some alice) ''m'' = (DraftUpdated, (reached 14))
      \<and> draft_pick (reached 14) (Some bob) ''n'' = (DraftUpdated, (reached 15))
      \<and> draft_pick (reached 15) (Some bob) ''o'' = (DraftUpdated, (reached 16))
      \<and> draft_pick (reached 16) (Some alice) ''p'' = (DraftUpdated, (reached 17)))
   \<and> ((\<exists>d'. currentDraftState (reached 12) = Some d'
         \<and> (if quota_met (currentPick2Count d') then phase d' = Complete
             else phase d' = Pick2
               \<and> (if 0 \<le> total (currentPick2Count d') \<and> total (currentPick2Count d') < 6
                   then currentPlayer d' = pick2_table ! nat (total (currentPick2Count d'))
                   else currentPlayer d' = currentPlayer (the (currentDraftState (reached 11)))))))
   \<and> ([actor (reached 11) (Some bob),
       actor (reached 12) (Some alice),
       actor (reached 13) (Some alice),
       actor (reached 14) (Some bob),
       actor (reached 15) (Some bob),
       actor (reached 16) (Some alice)] = map Some pick2_table
     
      \<and> phase_of (reached 12) = Some Pick2
      \<and> phase_of (reached 13) = Some Pick2
      \<and> phase_of (reached 14) = Some Pick2
      \<and> phase_of (reached 15) = Some Pick2
      \<and> phase_of (reached 16) = Some Pick2
     
      \<and> phase_of (reached 17) = Some Complete)"
proof -
  note inst = pick2_turn [of "reached 11" "(the (currentDraftState (reached 11)))" "Some bob" "''k''" "reached 12" "reached 11" "(the (currentDraftState (reached 11)))" "Some bob" "''k''" "reached 12" "Some alice" "''l''" "reached 13" "Some alice" "''m''" "reached 14" "Some bob" "''n''" "reached 15" "Some bob" "''o''" "reached 16" "Some alice" "''p''" "reached 17"]
  have hg: "currentDraftState (reached 11) = Some (the (currentDraftState (reached 11))) \<and> phase (the (currentDraftState (reached 11))) = Pick2
     
      \<and> draft_pick (reached 11) (Some bob) ''k'' = (DraftUpdated, (reached 12))"
    by code_simp
  have hs: "currentDraftState (reached 11) = Some (the (currentDraftState (reached 11))) \<and> phase (the (currentDraftState (reached 11))) = Pick2 \<and> currentPlayer (the (currentDraftState (reached 11))) = 2
      \<and> currentPick2Count (the (currentDraftState (reached 11))) = \<lparr>player1 = 0, player2 = 0\<rparr>
     
      \<and> draft_pick (reached 11) (Some bob) ''k'' = (DraftUpdated, (reached 12))
      \<and> draft_pick (reached 12) (Some alice) ''l'' = (DraftUpdated, (reached 13))
      \<and> draft_pick (reached 13) (Some alice) ''m'' = (DraftUpdated, (reached 14))
      \<and> draft_pick (reached 14) (Some bob) ''n'' = (DraftUpdated, (reached 15))
      \<and> draft_pick (reached 15) (Some bob) ''o'' = (DraftUpdated, (reached 16))
      \<and> draft_pick (reached 16) (Some alice) ''p'' = (DraftUpdated, (reached 17))"
    by code_simp
  have cg: "(\<exists>d'. currentDraftState (reached 12) = Some d'
         \<and> (if quota_met (currentPick2Count d') then phase d' = Complete
             else phase d' = Pick2
               \<and> (if 0 \<le> total (currentPick2Count d') \<and> total (currentPick2Count d') < 6
                   then currentPlayer d' = pick2_table ! nat (total (currentPick2Count d'))
                   else currentPlayer d' = currentPlayer (the (currentDraftState (reached 11))))))"
    by (rule mp [OF conjunct1 [OF inst] hg])
  have cs: "[actor (reached 11) (Some bob),
       actor (reached 12) (Some alice),
       actor (reached 13) (Some alice),
       actor (reached 14) (Some bob),
       actor (reached 15) (Some bob),
       actor (reached 16) (Some alice)] = map Some pick2_table
     
      \<and> phase_of (reached 12) = Some Pick2
      \<and> phase_of (reached 13) = Some Pick2
      \<and> phase_of (reached 14) = Some Pick2
      \<and> phase_of (reached 15) = Some Pick2
      \<and> phase_of (reached 16) = Some Pick2
     
      \<and> phase_of (reached 17) = Some Complete"
    by (rule mp [OF conjunct2 [OF inst] hs])
  show ?thesis
    by (rule conjI [OF hg conjI [OF hs conjI [OF cg cs]]])
qed

section \<open>Counters and quotas\<close>

lemma turn_inv_start:
  assumes "config_ok cfg"
  shows "turn_inv cfg
     \<lparr>phase = Ban1, currentPlayer = 1, bans = [], picks = [],
      player1Picks = [], player2Picks = [],
      currentPhase1BanCount = \<lparr>player1 = 0, player2 = 0\<rparr>,
      currentPhase2BanCount = \<lparr>player1 = 0, player2 = 0\<rparr>,
      currentPick1Count = \<lparr>player1 = 0, player2 = 0\<rparr>,
      currentPick2Count = \<lparr>player1 = 0, player2 = 0\<rparr>,
      balanceBansUsed = 0, timerStartedAt = now\<rparr>"
  using assms
  by (auto simp: turn_inv_def within_quota_def config_ok_def need_def count_of_def
      no_counts_def)


lemmas inv_defs = turn_inv_def within_quota_def no_counts_def on_table_def
  pick1_states_def pick2_states_def count_of_def increment_def

lemma turn_inv_ban1:
  assumes inv: "turn_inv cfg d" and ph: "phase d = Ban1"
  shows "turn_inv cfg (advance cfg (ban_mutation d (currentPlayer d) c))"
proof -
  define m where "m = ban_mutation d (currentPlayer d) c"
  have turn: "currentPlayer m = 1 \<or> currentPlayer m = 2"
    using inv by (simp add: m_def ban_mutation_frame turn_inv_def)
  have phm: "phase m = Ban1" using ph by (simp add: m_def ban_mutation_frame)
  have adv: "advance cfg m = advance_ban1 cfg m" using phm by (simp add: advance_def)
  have invm: "within_quota cfg m \<and> no_counts (currentPhase2BanCount m)
      \<and> no_counts (currentPick1Count m) \<and> no_counts (currentPick2Count m)"
    using inv ph turn
    by (auto simp: m_def ban_mutation_frame ban_mutation_counts inv_defs)
  show ?thesis
  proof (cases "done1 cfg m 1 \<and> done1 cfg m 2")
    case True
    then have "advance cfg m = m\<lparr>phase := Pick1, currentPlayer := 1\<rparr>"
      using adv advance_ban1_spec [OF turn, of cfg] by auto
    then show ?thesis
      using invm unfolding m_def [symmetric] by (simp add: inv_defs)
  next
    case False
    then have "advance cfg m = m\<lparr>currentPlayer := flip_skip (done1 cfg m) (currentPlayer m)\<rparr>"
      using adv advance_ban1_spec [OF turn, of cfg] by auto
    then show ?thesis
      using invm False turn phm unfolding m_def [symmetric]
      by (auto simp: inv_defs done1_def flip_skip_def flip_def)
  qed
qed

lemma turn_inv_ban2:
  assumes inv: "turn_inv cfg d" and ph: "phase d = Ban2"
  shows "turn_inv cfg (advance cfg (ban_mutation d (currentPlayer d) c))"
proof -
  define m where "m = ban_mutation d (currentPlayer d) c"
  have turn: "currentPlayer m = 1 \<or> currentPlayer m = 2"
    using inv by (simp add: m_def ban_mutation_frame turn_inv_def)
  have phm: "phase m = Ban2" using ph by (simp add: m_def ban_mutation_frame)
  have adv: "advance cfg m = advance_ban2 cfg m" using phm by (simp add: advance_def)
  have invm: "within_quota cfg m \<and> no_counts (currentPick2Count m)"
    using inv ph turn
    by (auto simp: m_def ban_mutation_frame ban_mutation_counts inv_defs)
  show ?thesis
  proof (cases "done2 cfg m 1 \<and> done2 cfg m 2")
    case True
    then have "advance cfg m = m\<lparr>phase := Pick2, currentPlayer := 2\<rparr>"
      using adv advance_ban2_spec [OF turn, of cfg] by auto
    then show ?thesis
      using invm unfolding m_def [symmetric] by (simp add: inv_defs)
  next
    case False
    then have "advance cfg m = m\<lparr>currentPlayer := flip_skip (done2 cfg m) (currentPlayer m)\<rparr>"
      using adv advance_ban2_spec [OF turn, of cfg] by auto
    then show ?thesis
      using invm False turn phm unfolding m_def [symmetric]
      by (auto simp: inv_defs done2_def flip_skip_def flip_def)
  qed
qed


lemma turn_inv_pick1:
  assumes inv: "turn_inv cfg d" and ph: "phase d = Pick1" and ok: "config_ok cfg"
  shows "turn_inv cfg (advance cfg (pick_mutation d (currentPlayer d) c))"
proof -
  define m where "m = pick_mutation d (currentPlayer d) c"
  have phm: "phase m = Pick1" using ph by (simp add: m_def pick_mutation_frame)
  have adv: "advance cfg m = advance_pick1 m" using phm by (simp add: advance_def)
  have q: "player1 (currentPhase1BanCount m) \<le> need cfg 1
      \<and> player2 (currentPhase1BanCount m) \<le> need cfg 2
      \<and> no_counts (currentPhase2BanCount m) \<and> no_counts (currentPick2Count m)"
    using inv ph by (simp add: m_def pick_mutation_frame pick_mutation_counts inv_defs)
  have st: "(player1 (currentPick1Count d), player2 (currentPick1Count d), currentPlayer d)
      \<in> set pick1_states"
    using inv ph by (simp add: turn_inv_def on_table_def)
  have cm: "currentPick1Count m = increment (currentPlayer d) (currentPick1Count d)"
    using ph by (simp add: m_def pick_mutation_counts)
  have tbl: "(player1 (currentPick1Count m), player2 (currentPick1Count m))
      \<in> {(1, 0), (1, 1), (1, 2), (2, 2), (3, 2), (3, 3)}"
    using st unfolding cm by (auto simp: pick1_states_def increment_def)
  have inside: "turn_inv cfg (advance_pick1 m)"
    if ab: "player1 (currentPick1Count m) = a" "player2 (currentPick1Count m) = b"
      and nq: "a < 3 \<or> b < 3" and rng: "0 \<le> a + b" "a + b < 6"
      and k: "pick1_table ! nat (a + b) = k" and mem: "(a, b, k) \<in> set pick1_states"
    for a b k
  proof -
    have "advance_pick1 m = m\<lparr>currentPlayer := k\<rparr>"
      using ab nq rng k by (auto simp: advance_pick1_spec quota_met_def total_def)
    then show ?thesis
      using q phm mem ab ok by (auto simp: inv_defs config_ok_def)
  qed
  have last: "turn_inv cfg (advance_pick1 m)"
    if ab: "player1 (currentPick1Count m) = 3" "player2 (currentPick1Count m) = 3"
  proof -
    have "advance_pick1 m = m\<lparr>phase := Ban2, currentPlayer := 1\<rparr>"
      using ab by (simp add: advance_pick1_spec quota_met_def)
    then show ?thesis
      using q phm ab ok by (auto simp: inv_defs config_ok_def)
  qed
  from tbl consider
      "player1 (currentPick1Count m) = 1 \<and> player2 (currentPick1Count m) = 0"
    | "player1 (currentPick1Count m) = 1 \<and> player2 (currentPick1Count m) = 1"
    | "player1 (currentPick1Count m) = 1 \<and> player2 (currentPick1Count m) = 2"
    | "player1 (currentPick1Count m) = 2 \<and> player2 (currentPick1Count m) = 2"
    | "player1 (currentPick1Count m) = 3 \<and> player2 (currentPick1Count m) = 2"
    | "player1 (currentPick1Count m) = 3 \<and> player2 (currentPick1Count m) = 3"
    by auto
  then have "turn_inv cfg (advance_pick1 m)"
  proof cases
    case 1
    then show ?thesis
      using inside [of 1 0 2] by (simp add: pick1_table_def pick1_states_def)
  next
    case 2
    then show ?thesis
      using inside [of 1 1 2] by (simp add: pick1_table_def pick1_states_def)
  next
    case 3
    then show ?thesis
      using inside [of 1 2 1] by (simp add: pick1_table_def pick1_states_def)
  next
    case 4
    then show ?thesis
      using inside [of 2 2 1] by (simp add: pick1_table_def pick1_states_def)
  next
    case 5
    then show ?thesis
      using inside [of 3 2 2] by (simp add: pick1_table_def pick1_states_def)
  next
    case 6
    then show ?thesis using last by simp
  qed
  then show ?thesis by (simp add: m_def [symmetric] adv)
qed

lemma turn_inv_pick2:
  assumes inv: "turn_inv cfg d" and ph: "phase d = Pick2"
  shows "turn_inv cfg (advance cfg (pick_mutation d (currentPlayer d) c))"
proof -
  define m where "m = pick_mutation d (currentPlayer d) c"
  have phm: "phase m = Pick2" using ph by (simp add: m_def pick_mutation_frame)
  have adv: "advance cfg m = advance_pick2 m" using phm by (simp add: advance_def)
  have turn: "currentPlayer m = 1 \<or> currentPlayer m = 2"
    using inv by (simp add: m_def pick_mutation_frame turn_inv_def)
  have q: "player1 (currentPhase1BanCount m) \<le> need cfg 1
      \<and> player2 (currentPhase1BanCount m) \<le> need cfg 2
      \<and> player1 (currentPhase2BanCount m) \<le> bansPhase2 cfg
      \<and> player2 (currentPhase2BanCount m) \<le> bansPhase2 cfg
      \<and> player1 (currentPick1Count m) \<le> 3 \<and> player2 (currentPick1Count m) \<le> 3"
    using inv ph by (simp add: m_def pick_mutation_frame pick_mutation_counts inv_defs)
  have st: "(player1 (currentPick2Count d), player2 (currentPick2Count d), currentPlayer d)
      \<in> set pick2_states"
    using inv ph by (simp add: turn_inv_def on_table_def)
  have cm: "currentPick2Count m = increment (currentPlayer d) (currentPick2Count d)"
    using ph by (simp add: m_def pick_mutation_counts)
  have tbl: "(player1 (currentPick2Count m), player2 (currentPick2Count m))
      \<in> {(0, 1), (1, 1), (2, 1), (2, 2), (2, 3), (3, 3)}"
    using st unfolding cm by (auto simp: pick2_states_def increment_def)
  have inside: "turn_inv cfg (advance_pick2 m)"
    if ab: "player1 (currentPick2Count m) = a" "player2 (currentPick2Count m) = b"
      and nq: "a < 3 \<or> b < 3" and rng: "0 \<le> a + b" "a + b < 6"
      and k: "pick2_table ! nat (a + b) = k" and mem: "(a, b, k) \<in> set pick2_states"
    for a b k
  proof -
    have "advance_pick2 m = m\<lparr>currentPlayer := k\<rparr>"
      using ab nq rng k by (auto simp: advance_pick2_spec quota_met_def total_def)
    then show ?thesis
      using q phm mem ab by (auto simp: inv_defs)
  qed
  have last: "turn_inv cfg (advance_pick2 m)"
    if ab: "player1 (currentPick2Count m) = 3" "player2 (currentPick2Count m) = 3"
  proof -
    have "advance_pick2 m = m\<lparr>phase := Complete\<rparr>"
      using ab by (simp add: advance_pick2_spec quota_met_def)
    then show ?thesis
      using q phm ab turn by (auto simp: inv_defs)
  qed
  from tbl consider
      "player1 (currentPick2Count m) = 0 \<and> player2 (currentPick2Count m) = 1"
    | "player1 (currentPick2Count m) = 1 \<and> player2 (currentPick2Count m) = 1"
    | "player1 (currentPick2Count m) = 2 \<and> player2 (currentPick2Count m) = 1"
    | "player1 (currentPick2Count m) = 2 \<and> player2 (currentPick2Count m) = 2"
    | "player1 (currentPick2Count m) = 2 \<and> player2 (currentPick2Count m) = 3"
    | "player1 (currentPick2Count m) = 3 \<and> player2 (currentPick2Count m) = 3"
    by auto
  then have "turn_inv cfg (advance_pick2 m)"
  proof cases
    case 1
    then show ?thesis
      using inside [of 0 1 1] by (simp add: pick2_table_def pick2_states_def)
  next
    case 2
    then show ?thesis
      using inside [of 1 1 1] by (simp add: pick2_table_def pick2_states_def)
  next
    case 3
    then show ?thesis
      using inside [of 2 1 2] by (simp add: pick2_table_def pick2_states_def)
  next
    case 4
    then show ?thesis
      using inside [of 2 2 2] by (simp add: pick2_table_def pick2_states_def)
  next
    case 5
    then show ?thesis
      using inside [of 2 3 1] by (simp add: pick2_table_def pick2_states_def)
  next
    case 6
    then show ?thesis using last by simp
  qed
  then show ?thesis by (simp add: m_def [symmetric] adv)
qed

lemma step_config: "draftConfig (snd (step s e)) = draftConfig s"
proof (cases e)
  case (Start user now)
  then show ?thesis by (simp add: draft_start_def split: option.splits)
next
  case (Ban user c)
  then show ?thesis using draft_ban_result [of s user c] by auto
next
  case (Pick user c)
  then show ?thesis using draft_pick_result [of s user c] by auto
next
  case (Reset user)
  then show ?thesis by (simp add: draft_reset_def split: option.splits)
qed

lemma step_server_inv:
  assumes inv: "server_inv s" and ok: "config_ok (draftConfig s)"
  shows "server_inv (snd (step s e))"
proof (cases e)
  case (Start user now)
  then show ?thesis
    using inv turn_inv_start [OF ok]
    by (auto simp: draft_start_def server_inv_def split: option.splits)
next
  case (Ban user c)
  show ?thesis
    using draft_ban_result [of s user c]
  proof
    assume "snd (draft_ban s user c) = s"
    then show ?thesis using inv Ban by simp
  next
    assume "\<exists>d. currentDraftState s = Some d \<and> startsWith_ban (phase d)
         \<and> fst (draft_ban s user c) = DraftUpdated
         \<and> snd (draft_ban s user c) = s\<lparr>currentDraftState :=
              Some (advance (draftConfig s) (ban_mutation d (currentPlayer d) c))\<rparr>"
    then obtain d where d: "currentDraftState s = Some d" and b: "startsWith_ban (phase d)"
      and r: "snd (draft_ban s user c) = s\<lparr>currentDraftState :=
              Some (advance (draftConfig s) (ban_mutation d (currentPlayer d) c))\<rparr>"
      by blast
    have "turn_inv (draftConfig s) d" using inv d by (simp add: server_inv_def)
    then have "turn_inv (draftConfig s)
        (advance (draftConfig s) (ban_mutation d (currentPlayer d) c))"
      using b turn_inv_ban1 turn_inv_ban2 by (auto simp: startsWith_ban_iff)
    then show ?thesis using r Ban by (simp add: server_inv_def)
  qed
next
  case (Pick user c)
  show ?thesis
    using draft_pick_result [of s user c]
  proof
    assume "snd (draft_pick s user c) = s"
    then show ?thesis using inv Pick by simp
  next
    assume "\<exists>d. currentDraftState s = Some d \<and> startsWith_pick (phase d)
         \<and> fst (draft_pick s user c) = DraftUpdated
         \<and> snd (draft_pick s user c) = s\<lparr>currentDraftState :=
              Some (advance (draftConfig s) (pick_mutation d (currentPlayer d) c))\<rparr>"
    then obtain d where d: "currentDraftState s = Some d" and b: "startsWith_pick (phase d)"
      and r: "snd (draft_pick s user c) = s\<lparr>currentDraftState :=
              Some (advance (draftConfig s) (pick_mutation d (currentPlayer d) c))\<rparr>"
      by blast
    have "turn_inv (draftConfig s) d" using inv d by (simp add: server_inv_def)
    then have "turn_inv (draftConfig s)
        (advance (draftConfig s) (pick_mutation d (currentPlayer d) c))"
      using b ok turn_inv_pick1 turn_inv_pick2 by (auto simp: startsWith_pick_iff)
    then show ?thesis using r Pick by (simp add: server_inv_def)
  qed
next
  case (Reset user)
  then show ?thesis
    using inv by (auto simp: draft_reset_def server_inv_def split: option.splits)
qed

lemma run_server_inv:
  "server_inv s \<Longrightarrow> config_ok (draftConfig s) \<Longrightarrow> server_inv (run s es)"
proof (induction es arbitrary: s)
  case Nil
  then show ?case by simp
next
  case (Cons e es)
  have "server_inv (snd (step s e))" using Cons.prems by (rule step_server_inv)
  moreover have "config_ok (draftConfig (snd (step s e)))"
    using Cons.prems(2) by (simp add: step_config)
  ultimately show ?case using Cons.IH by simp
qed

lemma server_inv_quota: "server_inv s \<Longrightarrow> quota_kept s"
  by (auto simp: server_inv_def quota_kept_def turn_inv_def split: option.splits)

lemma bumped_increment: "p = 1 \<or> p = 2 \<Longrightarrow> bumped p c (increment p c)"
  by (auto simp: bumped_def increment_def count_of_def flip_def)

text \<open>
  With \<open>bansPhase1 = 0\<close> and no balance ban the draft still opens in phase ban1 with the
  turn on player 1, no handler compares a count with its quota before a ban, and the
  first ban takes the phase-1 ban count of player 1 to 1, above the quota 0.
\<close>

theorem quota_zero_exceeded:
  "0 \<le> bansPhase1 zero_config \<and> 0 \<le> bansPhase2 zero_config \<and> 0 \<le> balanceBans zero_config
   \<and> draft_start (seated zero_config) (Some alice) 0 = (DraftStarted, started zero_config)
   \<and> fst (draft_ban (started zero_config) (Some alice) ''a'') = DraftUpdated
   \<and> \<not> quota_kept (snd (draft_ban (started zero_config) (Some alice) ''a''))"
  by code_simp

text \<open>
  Claim C5, amended. A successful ban is made by the player whose turn it is, in a ban
  phase, and it increments the ban count of that phase for that player by one and
  leaves the other player's count and the three other counters as they were; the same
  holds of a successful pick and the pick counters. And under a configuration that
  stays the same, with \<open>bansPhase1 \<ge> 0\<close>, \<open>balanceBans \<ge> 0\<close>, \<open>bansPhase2 \<ge> 1\<close> and a phase-1
  quota of player 1 of at least 1, every session that a run of draft messages reaches
  from a successful start has each counter within its quota.
\<close>

theorem counters_within_quota:
  "(draft_ban sb ub cb = (DraftUpdated, sb') \<and> currentDraftState sb = Some db \<longrightarrow>
      actor sb ub = Some (currentPlayer db) \<and> (phase db = Ban1 \<or> phase db = Ban2)
      \<and> (\<exists>d'. currentDraftState sb' = Some d'
            \<and> currentPick1Count d' = currentPick1Count db
            \<and> currentPick2Count d' = currentPick2Count db
            \<and> (if phase db = Ban1
                then bumped (currentPlayer db) (currentPhase1BanCount db)
                       (currentPhase1BanCount d')
                  \<and> currentPhase2BanCount d' = currentPhase2BanCount db
                else bumped (currentPlayer db) (currentPhase2BanCount db)
                       (currentPhase2BanCount d')
                  \<and> currentPhase1BanCount d' = currentPhase1BanCount db)))
   \<and> (draft_pick sp up cp = (DraftUpdated, sp') \<and> currentDraftState sp = Some dp \<longrightarrow>
      actor sp up = Some (currentPlayer dp) \<and> (phase dp = Pick1 \<or> phase dp = Pick2)
      \<and> (\<exists>d'. currentDraftState sp' = Some d'
            \<and> currentPhase1BanCount d' = currentPhase1BanCount dp
            \<and> currentPhase2BanCount d' = currentPhase2BanCount dp
            \<and> (if phase dp = Pick1
                then bumped (currentPlayer dp) (currentPick1Count dp) (currentPick1Count d')
                  \<and> currentPick2Count d' = currentPick2Count dp
                else bumped (currentPlayer dp) (currentPick2Count dp) (currentPick2Count d')
                  \<and> currentPick1Count d' = currentPick1Count dp)))
   \<and> (0 \<le> bansPhase1 (draftConfig s0) \<and> 0 \<le> balanceBans (draftConfig s0)
        \<and> 1 \<le> need (draftConfig s0) 1 \<and> 1 \<le> bansPhase2 (draftConfig s0)
        \<and> draft_start s0 u0 now = (DraftStarted, s1) \<longrightarrow>
      quota_kept (run s1 es))"
proof (rule conjI; (rule conjI)?; rule impI)
  assume h: "draft_ban sb ub cb = (DraftUpdated, sb') \<and> currentDraftState sb = Some db"
  from draft_ban_success [of sb ub cb sb'] h obtain u where
    u: "ub = Some u" and gp: "getPlayerNumber (draftRoom sb) (discordId u) = Some (currentPlayer db)"
    and b: "startsWith_ban (phase db)"
    and s': "sb' = sb\<lparr>currentDraftState :=
        Some (advance (draftConfig sb) (ban_mutation db (currentPlayer db) cb))\<rparr>"
    by auto
  note bump = bumped_increment [OF getPlayerNumber_range [OF gp]]
  show "actor sb ub = Some (currentPlayer db) \<and> (phase db = Ban1 \<or> phase db = Ban2)
      \<and> (\<exists>d'. currentDraftState sb' = Some d'
            \<and> currentPick1Count d' = currentPick1Count db
            \<and> currentPick2Count d' = currentPick2Count db
            \<and> (if phase db = Ban1
                then bumped (currentPlayer db) (currentPhase1BanCount db)
                       (currentPhase1BanCount d')
                  \<and> currentPhase2BanCount d' = currentPhase2BanCount db
                else bumped (currentPlayer db) (currentPhase2BanCount db)
                       (currentPhase2BanCount d')
                  \<and> currentPhase1BanCount d' = currentPhase1BanCount db))"
    using u gp b s' bump
    by (simp add: actor_def startsWith_ban_iff advance_frame ban_mutation_frame
        ban_mutation_counts)
next
  assume h: "draft_pick sp up cp = (DraftUpdated, sp') \<and> currentDraftState sp = Some dp"
  from draft_pick_success [of sp up cp sp'] h obtain u where
    u: "up = Some u" and gp: "getPlayerNumber (draftRoom sp) (discordId u) = Some (currentPlayer dp)"
    and b: "startsWith_pick (phase dp)"
    and s': "sp' = sp\<lparr>currentDraftState :=
        Some (advance (draftConfig sp) (pick_mutation dp (currentPlayer dp) cp))\<rparr>"
    by auto
  note bump = bumped_increment [OF getPlayerNumber_range [OF gp]]
  show "actor sp up = Some (currentPlayer dp) \<and> (phase dp = Pick1 \<or> phase dp = Pick2)
      \<and> (\<exists>d'. currentDraftState sp' = Some d'
            \<and> currentPhase1BanCount d' = currentPhase1BanCount dp
            \<and> currentPhase2BanCount d' = currentPhase2BanCount dp
            \<and> (if phase dp = Pick1
                then bumped (currentPlayer dp) (currentPick1Count dp) (currentPick1Count d')
                  \<and> currentPick2Count d' = currentPick2Count dp
                else bumped (currentPlayer dp) (currentPick2Count dp) (currentPick2Count d')
                  \<and> currentPick1Count d' = currentPick1Count dp))"
    using u gp b s' bump
    by (simp add: actor_def startsWith_pick_iff advance_frame pick_mutation_frame
        pick_mutation_counts)
next
  assume h: "0 \<le> bansPhase1 (draftConfig s0) \<and> 0 \<le> balanceBans (draftConfig s0)
        \<and> 1 \<le> need (draftConfig s0) 1 \<and> 1 \<le> bansPhase2 (draftConfig s0)
        \<and> draft_start s0 u0 now = (DraftStarted, s1)"
  then have ok: "config_ok (draftConfig s0)" and st: "draft_start s0 u0 now = (DraftStarted, s1)"
    by (simp_all add: config_ok_def)
  have cfg: "draftConfig s1 = draftConfig s0"
    using draft_start_success [OF st] by simp
  have "server_inv s1"
    using st turn_inv_start [OF ok]
    by (auto simp: draft_start_def server_inv_def split: option.splits if_splits)
  then have "server_inv (run s1 es)"
    using ok cfg by (simp add: run_server_inv)
  then show "quota_kept (run s1 es)" by (rule server_inv_quota)
qed

text \<open>
  The first ban and the first pick of \<open>full_draft\<close>, and the whole of it, under the
  configuration of the source.
\<close>

theorem counters_within_quota_witness:
  "(draft_ban (reached 1) (Some alice) ''a'' = (DraftUpdated, (reached 2)) \<and> currentDraftState (reached 1) = Some (the (currentDraftState (reached 1))))
   \<and> (draft_pick (reached 3) (Some alice) ''c'' = (DraftUpdated, (reached 4)) \<and> currentDraftState (reached 3) = Some (the (currentDraftState (reached 3))))
   \<and> (0 \<le> bansPhase1 (draftConfig (reached 0)) \<and> 0 \<le> balanceBans (draftConfig (reached 0))
        \<and> 1 \<le> need (draftConfig (reached 0)) 1 \<and> 1 \<le> bansPhase2 (draftConfig (reached 0))
        \<and> draft_start (reached 0) (Some alice) 0 = (DraftStarted, (reached 1)))
   \<and> (actor (reached 1) (Some alice) = Some (currentPlayer (the (currentDraftState (reached 1)))) \<and> (phase (the (currentDraftState (reached 1))) = Ban1 \<or> phase (the (currentDraftState (reached 1))) = Ban2)
      \<and> (\<exists>d'. currentDraftState (reached 2) = Some d'
            \<and> currentPick1Count d' = currentPick1Count (the (currentDraftState (reached 1)))
            \<and> currentPick2Count d' = currentPick2Count (the (currentDraftState (reached 1)))
            \<and> (if phase (the (currentDraftState (reached 1))) = Ban1
                then bumped (currentPlayer (the (currentDraftState (reached 1)))) (currentPhase1BanCount (the (currentDraftState (reached 1))))
                       (currentPhase1BanCount d')
                  \<and> currentPhase2BanCount d' = currentPhase2BanCount (the (currentDraftState (reached 1)))
                else bumped (currentPlayer (the (currentDraftState (reached 1)))) (currentPhase2BanCount (the (currentDraftState (reached 1))))
                       (currentPhase2BanCount d')
                  \<and> currentPhase1BanCount d' = currentPhase1BanCount (the (currentDraftState (reached 1))))))
   \<and> (actor (reached 3) (Some alice) = Some (currentPlayer (the (currentDraftState (reached 3)))) \<and> (phase (the (currentDraftState (reached 3))) = Pick1 \<or> phase (the (currentDraftState (reached 3))) = Pick2)
      \<and> (\<exists>d'. currentDraftState (reached 4) = Some d'
            \<and> currentPhase1BanCount d' = currentPhase1BanCount (the (currentDraftState (reached 3)))
            \<and> currentPhase2BanCount d' = currentPhase2BanCount (the (currentDraftState (reached 3)))
            \<and> (if phase (the (currentDraftState (reached 3))) = Pick1
                then bumped (currentPlayer (the (currentDraftState (reached 3)))) (currentPick1Count (the (currentDraftState (reached 3)))) (currentPick1Count d')
                  \<and> currentPick2Count d' = currentPick2Count (the (currentDraftState (reached 3)))
                else bumped (currentPlayer (the (currentDraftState (reached 3)))) (currentPick2Count (the (currentDraftState (reached 3)))) (currentPick2Count d')
                  \<and> currentPick1Count d' = currentPick1Count (the (currentDraftState (reached 3))))))
   \<and> (quota_kept (run (reached 1) (drop 1 full_draft)))"
proof -
  note inst = counters_within_quota [of "reached 1" "Some alice" "''a''" "reached 2" "(the (currentDraftState (reached 1)))" "reached 3" "Some alice" "''c''" "reached 4" "(the (currentDraftState (reached 3)))" "reached 0" "Some alice" "0" "reached 1" "drop 1 full_draft"]
  have h1: "draft_ban (reached 1) (Some alice) ''a'' = (DraftUpdated, (reached 2)) \<and> currentDraftState (reached 1) = Some (the (currentDraftState (reached 1)))"
    by code_simp
  have h2: "draft_pick (reached 3) (Some alice) ''c'' = (DraftUpdated, (reached 4)) \<and> currentDraftState (reached 3) = Some (the (currentDraftState (reached 3)))"
    by code_simp
  have h3: "0 \<le> bansPhase1 (draftConfig (reached 0)) \<and> 0 \<le> balanceBans (draftConfig (reached 0))
        \<and> 1 \<le> need (draftConfig (reached 0)) 1 \<and> 1 \<le> bansPhase2 (draftConfig (reached 0))
        \<and> draft_start (reached 0) (Some alice) 0 = (DraftStarted, (reached 1))"
    by code_simp
  have c1: "actor (reached 1) (Some alice) = Some (currentPlayer (the (currentDraftState (reached 1)))) \<and> (phase (the (currentDraftState (reached 1))) = Ban1 \<or> phase (the (currentDraftState (reached 1))) = Ban2)
      \<and> (\<exists>d'. currentDraftState (reached 2) = Some d'
            \<and> currentPick1Count d' = currentPick1Count (the (currentDraftState (reached 1)))
            \<and> currentPick2Count d' = currentPick2Count (the (currentDraftState (reached 1)))
            \<and> (if phase (the (currentDraftState (reached 1))) = Ban1
                then bumped (currentPlayer (the (currentDraftState (reached 1)))) (currentPhase1BanCount (the (currentDraftState (reached 1))))
                       (currentPhase1BanCount d')
                  \<and> currentPhase2BanCount d' = currentPhase2BanCount (the (currentDraftState (reached 1)))
                else bumped (currentPlayer (the (currentDraftState (reached 1)))) (currentPhase2BanCount (the (currentDraftState (reached 1))))
                       (currentPhase2BanCount d')
                  \<and> currentPhase1BanCount d' = currentPhase1BanCount (the (currentDraftState (reached 1)))))"
    by (rule mp [OF conjunct1 [OF inst] h1])
  have c2: "actor (reached 3) (Some alice) = Some (currentPlayer (the (currentDraftState (reached 3)))) \<and> (phase (the (currentDraftState (reached 3))) = Pick1 \<or> phase (the (currentDraftState (reached 3))) = Pick2)
      \<and> (\<exists>d'. currentDraftState (reached 4) = Some d'
            \<and> currentPhase1BanCount d' = currentPhase1BanCount (the (currentDraftState (reached 3)))
            \<and> currentPhase2BanCount d' = currentPhase2BanCount (the (currentDraftState (reached 3)))
            \<and> (if phase (the (currentDraftState (reached 3))) = Pick1
                then bumped (currentPlayer (the (currentDraftState (reached 3)))) (currentPick1Count (the (currentDraftState (reached 3)))) (currentPick1Count d')
                  \<and> currentPick2Count d' = currentPick2Count (the (currentDraftState (reached 3)))
                else bumped (currentPlayer (the (currentDraftState (reached 3)))) (currentPick2Count (the (currentDraftState (reached 3)))) (currentPick2Count d')
                  \<and> currentPick1Count d' = currentPick1Count (the (currentDraftState (reached 3)))))"
    by (rule mp [OF conjunct1 [OF conjunct2 [OF inst]] h2])
  have c3: "quota_kept (run (reached 1) (drop 1 full_draft))"
    by (rule mp [OF conjunct2 [OF conjunct2 [OF inst]] h3])
  show ?thesis
    by (rule conjI [OF h1 conjI [OF h2 conjI [OF h3 conjI [OF c1 conjI [OF c2 c3]]]]])
qed

section \<open>Bans and picks by item\<close>

text \<open>
  Each handler refuses an item that is already in its own list, so no run puts an item
  id twice into \<^verbatim>\<open>bans\<close> or twice into \<^verbatim>\<open>picks\<close>.
\<close>

lemma step_ids_distinct:
  assumes "distinct (banned_ids s) \<and> distinct (picked_ids s)"
  shows "distinct (banned_ids (snd (step s e))) \<and> distinct (picked_ids (snd (step s e)))"
proof (cases e)
  case (Start user now)
  then show ?thesis
    using assms
    by (auto simp: draft_start_def banned_ids_def picked_ids_def split: option.splits)
next
  case (Ban user c)
  show ?thesis
  proof (cases "fst (draft_ban s user c) = DraftUpdated")
    case True
    then have "draft_ban s user c = (DraftUpdated, snd (draft_ban s user c))"
      by (metis prod.collapse)
    from draft_ban_success [OF this] obtain d where
      "currentDraftState s = Some d"
      "\<not> list_ex (\<lambda>b. ban_characterId b = c) (bans d)"
      "snd (draft_ban s user c) = s\<lparr>currentDraftState :=
         Some (advance (draftConfig s) (ban_mutation d (currentPlayer d) c))\<rparr>"
      by blast
    then show ?thesis
      using assms Ban
      by (auto simp: banned_ids_def picked_ids_def advance_frame ban_mutation_frame
          ban_mutation_bans list_ex_iff)
  next
    case False
    then show ?thesis using assms Ban by (simp add: draft_ban_unchanged)
  qed
next
  case (Pick user c)
  show ?thesis
  proof (cases "fst (draft_pick s user c) = DraftUpdated")
    case True
    then have "draft_pick s user c = (DraftUpdated, snd (draft_pick s user c))"
      by (metis prod.collapse)
    from draft_pick_success [OF this] obtain d where
      "currentDraftState s = Some d"
      "\<not> list_ex (\<lambda>p. pick_characterId p = c) (picks d)"
      "snd (draft_pick s user c) = s\<lparr>currentDraftState :=
         Some (advance (draftConfig s) (pick_mutation d (currentPlayer d) c))\<rparr>"
      by blast
    then show ?thesis
      using assms Pick
      by (auto simp: banned_ids_def picked_ids_def advance_frame pick_mutation_frame
          pick_mutation_picks list_ex_iff)
  next
    case False
    then show ?thesis using assms Pick by (simp add: draft_pick_unchanged)
  qed
next
  case (Reset user)
  then show ?thesis
    using assms
    by (auto simp: draft_reset_def banned_ids_def picked_ids_def split: option.splits)
qed

lemma run_ids_distinct:
  "distinct (banned_ids s) \<and> distinct (picked_ids s)
   \<Longrightarrow> distinct (banned_ids (run s es)) \<and> distinct (picked_ids (run s es))"
proof (induction es arbitrary: s)
  case Nil
  then show ?case by simp
next
  case (Cons e es)
  from step_ids_distinct [OF Cons.prems] Cons.IH show ?case by simp
qed

text \<open>
  Claim C6. The claim is that no item id is ever in both \<^verbatim>\<open>bans\<close> and \<^verbatim>\<open>picks\<close> and none
  is twice in either. \<^verbatim>\<open>draft:pick\<close> refuses an item that is banned or picked, but
  \<^verbatim>\<open>draft:ban\<close> only refuses an item that is banned: in phase ban2 it accepts an item
  picked in phase pick1. Here the run of \<open>full_draft\<close> has reached phase ban2 with the
  invariant intact, player 1 bans the item \<open>c\<close> that player 1 picked, the ban succeeds,
  and \<open>c\<close> is then among the bans and among the picks.
\<close>

theorem ban_of_picked_item:
  "item_invariant (reached 9)
   \<and> fst (draft_ban (reached 9) (Some alice) ''c'') = DraftUpdated
   \<and> ''c'' \<in> set (banned_ids (snd (draft_ban (reached 9) (Some alice) ''c'')))
   \<and> ''c'' \<in> set (picked_ids (snd (draft_ban (reached 9) (Some alice) ''c'')))
   \<and> \<not> item_invariant (snd (draft_ban (reached 9) (Some alice) ''c''))"
  by code_simp

end
